theory Spec2Isabelle
  imports Main "HOL-Library.Word" "HOL-Library.Sublist"
begin

unbundle bit_operations_syntax

section \<open>Status values and messages\<close>

text \<open>
  A \<open>Status\<close> is either OK or an error of some component carrying a message. The Query
  itself only ever builds \<open>Status::QueryError(msg)\<close>; the Reader and Writer engines
  return their own errors, which the Query passes on unchanged.  \<open>LOG_STATUS\<close> logs its
  argument and returns it, so it is the identity here.
\<close>

datatype Status = Ok | QueryError string | ReaderError string | WriterError string

definition ok :: "Status \<Rightarrow> bool" where
  "ok st = (st = Ok)"

text \<open>\<open>std::to_string\<close> on an unsigned integer: its decimal digits, most significant first.\<close>

definition digit_char :: "nat \<Rightarrow> char" where
  "digit_char d = ''0123456789'' ! d"

function to_string :: "nat \<Rightarrow> string" where
  "to_string n = (if n < 10 then [digit_char n] else to_string (n div 10) @ [digit_char (n mod 10)])"
  by pat_completeness auto
termination
  by (relation "measure id") auto

declare to_string.simps [simp del]

section \<open>Variable-length offsets validation\<close>

text \<open>
  \<open>Query::check_var_attr_offsets\<close>.  A \<open>const uint64_t*\<close> that is indexed is a function
  from the index to the 64-bit cell, a \<open>const uint64_t*\<close> that is only dereferenced is the
  cell it points to; \<open>None\<close> is \<open>nullptr\<close>.  The loop counter is a \<open>uint64_t\<close> that stays
  below \<open>num_offsets < 2 ^ 61\<close>, so it never wraps and is a \<open>nat\<close> here.
\<close>

function offsets_loop :: "(nat \<Rightarrow> 64 word) \<Rightarrow> 64 word \<Rightarrow> nat \<Rightarrow> nat \<Rightarrow> 64 word \<Rightarrow> Status" where
  "offsets_loop buffer_off buffer_val_size num_offsets i prev_offset =
     (if i < num_offsets then
        (if buffer_off i \<le> prev_offset then
           QueryError ''Invalid offsets; offsets must be given in strictly ascending order.''
         else if buffer_off i \<ge> buffer_val_size then
           QueryError (''Invalid offsets; offset '' @ to_string (unat (buffer_off i)) @
                       '' specified for buffer of size '' @ to_string (unat buffer_val_size))
         else offsets_loop buffer_off buffer_val_size num_offsets (i + 1) (buffer_off i))
      else Ok)"
  by pat_completeness auto
termination
  by (relation "measure (\<lambda>(off, vs, n, i, p). n - i)") auto

declare offsets_loop.simps [simp del]

definition check_var_attr_offsets ::
  "(nat \<Rightarrow> 64 word) option \<Rightarrow> 64 word option \<Rightarrow> 64 word option \<Rightarrow> Status" where
  "check_var_attr_offsets buffer_off buffer_off_size buffer_val_size =
     (case (buffer_off, buffer_off_size, buffer_val_size) of
        (Some off, Some off_size, Some val_size) \<Rightarrow>
          (let num_offsets = unat off_size div 8 in
           if num_offsets = 0 then Ok
           else
             (let prev_offset = off 0 in
              if prev_offset \<ge> val_size then
                QueryError (''Invalid offsets; offset '' @ to_string (unat prev_offset) @
                            '' specified for buffer of size '' @ to_string (unat val_size))
              else offsets_loop off val_size num_offsets 1 prev_offset))
      | _ \<Rightarrow> QueryError ''Cannot use null offset buffers.'')"

text \<open>The specification's names for the two errors of this check.\<close>

definition NullBuffer :: Status where
  "NullBuffer = QueryError ''Cannot use null offset buffers.''"

definition is_InvalidOffsets :: "Status \<Rightarrow> bool" where
  "is_InvalidOffsets st =
     (case st of QueryError msg \<Rightarrow> take 16 msg = ''Invalid offsets;'' | _ \<Rightarrow> False)"

section \<open>Enumerations\<close>

text \<open>
  Modelled from the spec: the enumerations \<open>Datatype\<close>, \<open>QueryType\<close>, \<open>QueryStatus\<close> and
  \<open>Layout\<close>, whose headers are not among the sources.  The enumerators of
  \<open>Datatype\<close> are those the two \<open>switch\<close> statements of \<open>query.cc\<close> list, in that order.
\<close>

datatype Datatype =
    INT8 | UINT8 | INT16 | UINT16 | INT32 | UINT32 | INT64 | UINT64 | FLOAT32 | FLOAT64
  | CHAR | STRING_ASCII | STRING_UTF8 | STRING_UTF16 | STRING_UTF32 | STRING_UCS2 | STRING_UCS4
  | ANY

datatype QueryType = READ | WRITE

datatype QueryStatus = FAILED | COMPLETED | INPROGRESS | INCOMPLETE | UNINITIALIZED

datatype Layout = ROW_MAJOR | COL_MAJOR | GLOBAL_ORDER | UNORDERED

section \<open>Raw memory and typed views\<close>

text \<open>
  A non-null \<open>const void*\<close> that is only read is the sequence of bytes found from that
  address on: a function from the byte offset to the byte.  \<open>static_cast<const T*>(p)[k]\<close>
  for a \<open>T\<close> of \<open>LENGTH('a) div 8\<close> bytes reads the bytes at offsets \<open>k * sizeof(T)\<close> onwards
  as one little-endian scalar (the byte order of the platforms the library builds on); the
  scalar is kept as its bit pattern, an \<open>'a word\<close>, and the comparison operators of \<open>T\<close>
  below say how the pattern is ordered.
\<close>

type_synonym byte = "8 word"
type_synonym mem = "nat \<Rightarrow> byte"

function load_le :: "mem \<Rightarrow> nat \<Rightarrow> nat \<Rightarrow> nat" where
  "load_le p a n = (if n = 0 then 0 else unat (p a) + 256 * load_le p (a + 1) (n - 1))"
  by pat_completeness auto
termination
  by (relation "measure (\<lambda>(p, a, n). n)") auto

declare load_le.simps [simp del]

definition elem :: "mem \<Rightarrow> nat \<Rightarrow> 'a::len word" where
  "elem p k = (let sz = LENGTH('a) div 8 in word_of_nat (load_le p (k * sz) sz))"

text \<open>Memory holding the given bytes (and zeroes after them), for concrete inputs.\<close>

definition mem_of :: "byte list \<Rightarrow> mem" where
  "mem_of bs a = (if a < length bs then bs ! a else 0)"

subsection \<open>The comparison operators of the ten numeric types\<close>

text \<open>
  \<open>operator<\<close> on \<open>int8_t\<close>, \<open>int16_t\<close>, \<open>int32_t\<close>, \<open>int64_t\<close> compares two's-complement
  values (\<open>word_sless\<close>), on the unsigned types the unsigned values (\<open><\<close> on words).  On
  \<open>float\<close> and \<open>double\<close> it is the IEEE 754 comparison, which is exact: a pattern whose
  magnitude (all bits but the top one, the sign) exceeds that of infinity is a NaN and compares false with everything;
  otherwise the values are ordered as sign-and-magnitude integers (so \<open>-0.0\<close> and \<open>+0.0\<close>
  are equal, and the infinities are the two extremes).  \<open>a > b\<close> is \<open>b < a\<close> for every type.
\<close>

definition fp_sign :: "'a::len word \<Rightarrow> bool" where
  "fp_sign w = (unat w \<ge> 2 ^ (LENGTH('a) - 1))"

definition fp_mag :: "'a::len word \<Rightarrow> nat" where
  "fp_mag w = unat w mod 2 ^ (LENGTH('a) - 1)"

definition fp_key :: "'a::len word \<Rightarrow> int" where
  "fp_key w = (if fp_sign w then - int (fp_mag w) else int (fp_mag w))"

definition float_inf :: "32 word" where
  "float_inf = 0x7F800000"

definition double_inf :: "64 word" where
  "double_inf = 0x7FF0000000000000"

definition float_isnan :: "32 word \<Rightarrow> bool" where
  "float_isnan w = (fp_mag w > unat float_inf)"

definition double_isnan :: "64 word \<Rightarrow> bool" where
  "double_isnan w = (fp_mag w > unat double_inf)"

definition float_less :: "32 word \<Rightarrow> 32 word \<Rightarrow> bool" where
  "float_less a b = (\<not> float_isnan a \<and> \<not> float_isnan b \<and> fp_key a < fp_key b)"

definition double_less :: "64 word \<Rightarrow> 64 word \<Rightarrow> bool" where
  "double_less a b = (\<not> double_isnan a \<and> \<not> double_isnan b \<and> fp_key a < fp_key b)"

text \<open>\<open>operator<=\<close> on the two floating types, for stating the specification's condition.\<close>

definition float_le :: "32 word \<Rightarrow> 32 word \<Rightarrow> bool" where
  "float_le a b = (\<not> float_isnan a \<and> \<not> float_isnan b \<and> fp_key a \<le> fp_key b)"

definition double_le :: "64 word \<Rightarrow> 64 word \<Rightarrow> bool" where
  "double_le a b = (\<not> double_isnan a \<and> \<not> double_isnan b \<and> fp_key a \<le> fp_key b)"

section \<open>Array schema, domain and dimensions\<close>

text \<open>
  Of \<open>Dimension\<close> (\<open>dimension.h\<close>) the Query reads \<open>domain()\<close>, a \<open>void*\<close> to the two bounds
  of the dimension.  \<open>Domain\<close> and \<open>ArraySchema\<close> are used through \<open>type()\<close>, \<open>dim_num()\<close>,
  \<open>dimension(i)\<close> and \<open>domain()\<close> only.  A dimension of a schema that a query holds has its
  domain set, so \<open>domain()\<close> is not null there, and \<open>dimension(i)\<close> is only called with
  \<open>i < dim_num()\<close>.
\<close>

record Dimension =
  dim_name :: string
  dim_type :: Datatype
  dim_domain :: mem

record Domain =
  dom_type :: Datatype
  dimensions :: "Dimension list"

record ArraySchema =
  schema_domain :: Domain

definition dim_num :: "Domain \<Rightarrow> nat" where
  "dim_num d = length (dimensions d)"

definition dimension :: "Domain \<Rightarrow> nat \<Rightarrow> Dimension" where
  "dimension d i = dimensions d ! i"

section \<open>Subarray bounds validation\<close>

text \<open>
  A call runs to its \<open>return\<close>, or stops at a failed \<open>assert\<close> (when assertions are compiled
  in), or has no defined behaviour because it dereferences a null pointer.
\<close>

datatype 'a outcome = Returns 'a | AssertFailed | Undefined

text \<open>
  \<open>Query::check_subarray_bounds<T>\<close>, with \<open>operator<\<close> of \<open>T\<close> as the parameter \<open>lt\<close>.
  The counter and \<open>dim_num\<close> are \<open>unsigned int\<close>, so the indices \<open>2 * i\<close> and \<open>2 * i + 1\<close> are
  computed modulo \<open>2 ^ 32\<close>.
\<close>

function check_subarray_bounds_T ::
  "('a::len word \<Rightarrow> 'a word \<Rightarrow> bool) \<Rightarrow> Domain \<Rightarrow> mem \<Rightarrow> nat \<Rightarrow> Status" where
  "check_subarray_bounds_T lt domain subarray i =
     (if i < dim_num domain then
        (let dim_dom = dim_domain (dimension domain i);
             lo = elem subarray ((2 * i) mod 2 ^ 32);
             hi = elem subarray ((2 * i + 1) mod 2 ^ 32)
         in if lt lo (elem dim_dom 0) \<or> lt (elem dim_dom 1) hi then
              QueryError ''Subarray out of bounds''
            else if lt hi lo then
              QueryError ''Subarray lower bound is larger than upper bound''
            else check_subarray_bounds_T lt domain subarray (i + 1))
      else Ok)"
  by pat_completeness auto
termination
  by (relation "measure (\<lambda>(lt, domain, subarray, i). dim_num domain - i)") auto

declare check_subarray_bounds_T.simps [simp del]

text \<open>
  \<open>Query::check_subarray_bounds(const void*)\<close>, given what \<open>this->array_schema()\<close> returns.
  \<open>ndebug\<close> says that \<open>NDEBUG\<close> is defined, so that \<open>assert(false)\<close> does nothing and control
  reaches the final \<open>return Status::Ok()\<close>.  The last arm is the one the eight enumerators
  \<open>CHAR\<close>, \<open>STRING_ASCII\<close>, \<open>STRING_UTF8\<close>, \<open>STRING_UTF16\<close>, \<open>STRING_UTF32\<close>,
  \<open>STRING_UCS2\<close>, \<open>STRING_UCS4\<close> and \<open>ANY\<close> share.
\<close>

definition check_subarray_bounds_schema ::
  "bool \<Rightarrow> ArraySchema option \<Rightarrow> mem option \<Rightarrow> Status outcome" where
  "check_subarray_bounds_schema ndebug array_schema subarray =
     (case subarray of
        None \<Rightarrow> Returns Ok
      | Some sub \<Rightarrow>
          (case array_schema of
             None \<Rightarrow> Returns (QueryError ''Cannot check subarray; Array schema not set'')
           | Some schema \<Rightarrow>
               (let domain = schema_domain schema in
                case dom_type domain of
                  INT8 \<Rightarrow> Returns (check_subarray_bounds_T (word_sless :: 8 word \<Rightarrow> _) domain sub 0)
                | UINT8 \<Rightarrow> Returns (check_subarray_bounds_T ((<) :: 8 word \<Rightarrow> _) domain sub 0)
                | INT16 \<Rightarrow> Returns (check_subarray_bounds_T (word_sless :: 16 word \<Rightarrow> _) domain sub 0)
                | UINT16 \<Rightarrow> Returns (check_subarray_bounds_T ((<) :: 16 word \<Rightarrow> _) domain sub 0)
                | INT32 \<Rightarrow> Returns (check_subarray_bounds_T (word_sless :: 32 word \<Rightarrow> _) domain sub 0)
                | UINT32 \<Rightarrow> Returns (check_subarray_bounds_T ((<) :: 32 word \<Rightarrow> _) domain sub 0)
                | INT64 \<Rightarrow> Returns (check_subarray_bounds_T (word_sless :: 64 word \<Rightarrow> _) domain sub 0)
                | UINT64 \<Rightarrow> Returns (check_subarray_bounds_T ((<) :: 64 word \<Rightarrow> _) domain sub 0)
                | FLOAT32 \<Rightarrow> Returns (check_subarray_bounds_T float_less domain sub 0)
                | FLOAT64 \<Rightarrow> Returns (check_subarray_bounds_T double_less domain sub 0)
                | _ \<Rightarrow> (if ndebug then Returns Ok else AssertFailed))))"

section \<open>Attribute buffers and the heap\<close>

text \<open>
  \<open>copy_buffers\<close> writes through pointers, so the buffers it touches live in an explicit
  store.  Payload bytes are addressed bytewise; the \<open>uint64_t\<close> size cells that the
  \<open>buffer_size_\<close> and \<open>buffer_var_size_\<close> pointers lead to are objects of their own, kept in a
  store of 64-bit cells.  \<open>free\<close> is recorded and changes no contents.  A pointer is an address
  or \<open>nullptr\<close> (\<open>None\<close>).  The member \<open>x_\<close> of \<open>AttributeBuffer\<close> is the field \<open>ab_x\<close>.
\<close>

type_synonym addr = nat
type_synonym ptr = "addr option"

record heap =
  bytes :: "addr \<Rightarrow> byte"
  cells :: "addr \<Rightarrow> 64 word"
  freed :: "ptr list"

record AttributeBuffer =
  ab_buffer :: ptr
  ab_buffer_var :: ptr
  ab_buffer_size :: ptr
  ab_buffer_var_size :: ptr

definition deref :: "heap \<Rightarrow> ptr \<Rightarrow> 64 word option" where
  "deref h p = (case p of None \<Rightarrow> None | Some a \<Rightarrow> Some (cells h a))"

definition memcpy :: "ptr \<Rightarrow> ptr \<Rightarrow> nat \<Rightarrow> heap \<Rightarrow> heap option" where
  "memcpy dst src n h =
     (case (dst, src) of
        (Some d, Some s) \<Rightarrow>
          Some (h\<lparr>bytes := (\<lambda>a. if d \<le> a \<and> a < d + n then bytes h (s + (a - d)) else bytes h a)\<rparr>)
      | _ \<Rightarrow> None)"

definition free :: "ptr \<Rightarrow> heap \<Rightarrow> heap" where
  "free p h = h\<lparr>freed := freed h @ [p]\<rparr>"

section \<open>The Reader and Writer engines\<close>

text \<open>
  The Reader and the Writer are not among the sources.  Their states are the
  type parameters \<open>'r\<close> and \<open>'w\<close>, and the operations the Query calls on them are the fields
  of the record below, each a function of the engine's state that returns the call's
  result and the state afterwards.  A theorem about the Query holds for whatever the
  engines do.  An unordered map of attribute buffers is the list of its entries in
  iteration order.
\<close>

record ('r, 'w) engines =
  reader_array_schema :: "'r \<Rightarrow> ArraySchema option"
  writer_array_schema :: "'w \<Rightarrow> ArraySchema option"
  reader_attribute_buffers :: "'r \<Rightarrow> (string \<times> AttributeBuffer) list"
  writer_attribute_buffers :: "'w \<Rightarrow> (string \<times> AttributeBuffer) list"
  reader_subarray :: "'r \<Rightarrow> mem option"
  writer_subarray :: "'w \<Rightarrow> mem option"
  reader_init :: "'r \<Rightarrow> Status \<times> 'r"
  writer_init :: "'w \<Rightarrow> Status \<times> 'w"
  reader_read :: "'r \<Rightarrow> Status \<times> 'r"
  writer_write :: "'w \<Rightarrow> Status \<times> 'w"
  reader_incomplete :: "'r \<Rightarrow> bool"
  writer_finalize :: "'w \<Rightarrow> Status \<times> 'w"
  reader_set_buffer :: "string \<Rightarrow> ptr \<Rightarrow> ptr \<Rightarrow> 'r \<Rightarrow> Status \<times> 'r"
  writer_set_buffer :: "string \<Rightarrow> ptr \<Rightarrow> ptr \<Rightarrow> 'w \<Rightarrow> Status \<times> 'w"
  reader_set_buffer_var :: "string \<Rightarrow> ptr \<Rightarrow> ptr \<Rightarrow> ptr \<Rightarrow> ptr \<Rightarrow> 'r \<Rightarrow> Status \<times> 'r"
  writer_set_buffer_var :: "string \<Rightarrow> ptr \<Rightarrow> ptr \<Rightarrow> ptr \<Rightarrow> ptr \<Rightarrow> 'w \<Rightarrow> Status \<times> 'w"
  reader_set_layout :: "Layout \<Rightarrow> 'r \<Rightarrow> Status \<times> 'r"
  writer_set_layout :: "Layout \<Rightarrow> 'w \<Rightarrow> Status \<times> 'w"
  reader_set_subarray :: "mem option \<Rightarrow> 'r \<Rightarrow> Status \<times> 'r"
  writer_set_subarray :: "mem option \<Rightarrow> 'w \<Rightarrow> Status \<times> 'w"

section \<open>The Query\<close>

text \<open>
  The members of \<open>Query\<close> that \<open>query.cc\<close> uses; the member \<open>x_\<close> is the field \<open>q_x\<close>.
  The callback is a function on the data that \<open>callback_data_\<close> points to.  \<open>events\<close> is not
  a member: it records, in order, every assignment to \<open>status_\<close> and every call of the
  callback, so that what is said about their order can be stated.
\<close>

datatype event = StatusAssigned QueryStatus | CallbackInvoked

record ('r, 'w, 'u) Query =
  q_type :: QueryType
  q_status :: QueryStatus
  q_layout :: Layout
  q_callback :: "('u \<Rightarrow> 'u) option"
  q_callback_data :: 'u
  q_reader :: 'r
  q_writer :: 'w
  events :: "event list"

definition assign_status :: "QueryStatus \<Rightarrow> ('r, 'w, 'u) Query \<Rightarrow> ('r, 'w, 'u) Query" where
  "assign_status s q = q\<lparr>q_status := s, events := events q @ [StatusAssigned s]\<rparr>"

definition array_schema :: "('r, 'w) engines \<Rightarrow> ('r, 'w, 'u) Query \<Rightarrow> ArraySchema option" where
  "array_schema E q =
     (if q_type q = WRITE then writer_array_schema E (q_writer q)
      else reader_array_schema E (q_reader q))"

definition attribute_buffers ::
  "('r, 'w) engines \<Rightarrow> ('r, 'w, 'u) Query \<Rightarrow> (string \<times> AttributeBuffer) list" where
  "attribute_buffers E q =
     (if q_type q = WRITE then writer_attribute_buffers E (q_writer q)
      else reader_attribute_buffers E (q_reader q))"

text \<open>
  \<open>Query::subarray<T>().data()\<close>: the template is declared in \<open>query.h\<close>, which is not
  among the sources; what it yields is what the engine of the query's type holds as its subarray.
\<close>

definition subarray :: "('r, 'w) engines \<Rightarrow> ('r, 'w, 'u) Query \<Rightarrow> mem option" where
  "subarray E q =
     (if q_type q = WRITE then writer_subarray E (q_writer q)
      else reader_subarray E (q_reader q))"

definition check_subarray_bounds ::
  "bool \<Rightarrow> ('r, 'w) engines \<Rightarrow> ('r, 'w, 'u) Query \<Rightarrow> mem option \<Rightarrow> Status outcome" where
  "check_subarray_bounds ndebug E q sub = check_subarray_bounds_schema ndebug (array_schema E q) sub"

definition finalize ::
  "('r, 'w) engines \<Rightarrow> ('r, 'w, 'u) Query \<Rightarrow> Status \<times> ('r, 'w, 'u) Query" where
  "finalize E q =
     (if q_status q = UNINITIALIZED then (Ok, q)
      else
        (let (st, w) = writer_finalize E (q_writer q); q1 = q\<lparr>q_writer := w\<rparr>
         in if \<not> ok st then (st, q1)
            else (Ok, assign_status COMPLETED q1)))"

definition init ::
  "('r, 'w) engines \<Rightarrow> ('r, 'w, 'u) Query \<Rightarrow> Status \<times> ('r, 'w, 'u) Query" where
  "init E q =
     (if q_status q = UNINITIALIZED then
        (if q_type q = READ then
           (let (st, r) = reader_init E (q_reader q); q1 = q\<lparr>q_reader := r\<rparr>
            in if \<not> ok st then (st, q1) else (Ok, assign_status INPROGRESS q1))
         else
           (let (st, w) = writer_init E (q_writer q); q1 = q\<lparr>q_writer := w\<rparr>
            in if \<not> ok st then (st, q1) else (Ok, assign_status INPROGRESS q1)))
      else (Ok, assign_status INPROGRESS q))"

definition cancel :: "('r, 'w, 'u) Query \<Rightarrow> Status \<times> ('r, 'w, 'u) Query" where
  "cancel q = (Ok, assign_status FAILED q)"

definition process ::
  "('r, 'w) engines \<Rightarrow> ('r, 'w, 'u) Query \<Rightarrow> Status \<times> ('r, 'w, 'u) Query" where
  "process E q =
     (if q_status q = UNINITIALIZED then
        (QueryError ''Cannot process query; Query is not initialized'', q)
      else
        (let q1 = assign_status INPROGRESS q;
             (st, q2) =
               (if q_type q1 = READ then
                  (let (st, r) = reader_read E (q_reader q1) in (st, q1\<lparr>q_reader := r\<rparr>))
                else
                  (let (st, w) = writer_write E (q_writer q1) in (st, q1\<lparr>q_writer := w\<rparr>)))
         in if \<not> ok st then (st, assign_status FAILED q2)
            else
              (let completed =
                     (if q_type q2 = WRITE then True else \<not> reader_incomplete E (q_reader q2))
               in if completed then
                    (let q3 = (case q_callback q2 of
                                 None \<Rightarrow> q2
                               | Some f \<Rightarrow> q2\<lparr>q_callback_data := f (q_callback_data q2),
                                                events := events q2 @ [CallbackInvoked]\<rparr>)
                     in (Ok, assign_status COMPLETED q3))
                  else (Ok, assign_status INCOMPLETE q2))))"

definition set_buffer ::
  "('r, 'w) engines \<Rightarrow> string \<Rightarrow> ptr \<Rightarrow> ptr \<Rightarrow> ('r, 'w, 'u) Query \<Rightarrow>
     Status \<times> ('r, 'w, 'u) Query" where
  "set_buffer E attribute buffer buffer_size q =
     (if q_type q = WRITE then
        (let (st, w) = writer_set_buffer E attribute buffer buffer_size (q_writer q)
         in (st, q\<lparr>q_writer := w\<rparr>))
      else
        (let (st, r) = reader_set_buffer E attribute buffer buffer_size (q_reader q)
         in (st, q\<lparr>q_reader := r\<rparr>)))"

definition set_buffer_var ::
  "('r, 'w) engines \<Rightarrow> string \<Rightarrow> ptr \<Rightarrow> ptr \<Rightarrow> ptr \<Rightarrow> ptr \<Rightarrow> ('r, 'w, 'u) Query \<Rightarrow>
     Status \<times> ('r, 'w, 'u) Query" where
  "set_buffer_var E attribute buffer_off buffer_off_size buffer_val buffer_val_size q =
     (if q_type q = WRITE then
        (let (st, w) = writer_set_buffer_var E attribute buffer_off buffer_off_size
                         buffer_val buffer_val_size (q_writer q)
         in (st, q\<lparr>q_writer := w\<rparr>))
      else
        (let (st, r) = reader_set_buffer_var E attribute buffer_off buffer_off_size
                         buffer_val buffer_val_size (q_reader q)
         in (st, q\<lparr>q_reader := r\<rparr>)))"

definition set_layout ::
  "('r, 'w) engines \<Rightarrow> Layout \<Rightarrow> ('r, 'w, 'u) Query \<Rightarrow> Status \<times> ('r, 'w, 'u) Query" where
  "set_layout E layout q =
     (let q1 = q\<lparr>q_layout := layout\<rparr>
      in if q_type q1 = WRITE then
           (let (st, w) = writer_set_layout E layout (q_writer q1) in (st, q1\<lparr>q_writer := w\<rparr>))
         else
           (let (st, r) = reader_set_layout E layout (q_reader q1) in (st, q1\<lparr>q_reader := r\<rparr>)))"

definition set_subarray ::
  "bool \<Rightarrow> ('r, 'w) engines \<Rightarrow> mem option \<Rightarrow> ('r, 'w, 'u) Query \<Rightarrow>
     (Status \<times> ('r, 'w, 'u) Query) outcome" where
  "set_subarray ndebug E sub q =
     (case check_subarray_bounds ndebug E q sub of
        AssertFailed \<Rightarrow> AssertFailed
      | Undefined \<Rightarrow> Undefined
      | Returns st \<Rightarrow>
          if \<not> ok st then Returns (st, q)
          else
            (let (st1, q1) =
                   (if q_type q = WRITE then
                      (let (st, w) = writer_set_subarray E sub (q_writer q) in (st, q\<lparr>q_writer := w\<rparr>))
                    else
                      (let (st, r) = reader_set_subarray E sub (q_reader q) in (st, q\<lparr>q_reader := r\<rparr>)))
             in if \<not> ok st1 then Returns (st1, q1)
                else Returns (Ok, assign_status UNINITIALIZED q1)))"

section \<open>Copying buffers from a donor query\<close>

definition fixed_size_mismatch :: "64 word \<Rightarrow> 64 word \<Rightarrow> string" where
  "fixed_size_mismatch existing_size new_size =
     ''Existing buffer in query object is different size ('' @ to_string (unat existing_size) @
     '') vs new query object buffer size ('' @ to_string (unat new_size) @ '')''"

definition var_size_mismatch :: "64 word \<Rightarrow> 64 word \<Rightarrow> string" where
  "var_size_mismatch existing_size new_size =
     ''Existing buffer_var_ in query object is different size ('' @ to_string (unat existing_size) @
     '') vs new query object buffer_var size ('' @ to_string (unat new_size) @ '')''"

text \<open>
  The loop of \<open>Query::copy_buffers\<close> over the donor's buffers, \<open>existing_buffers.find\<close> being
  the lookup \<open>existing\<close>.  The \<open>Status\<close> that \<open>set_buffer\<close> returns is dropped, as in the source.
\<close>

fun copy_buffers_loop ::
  "('r, 'w) engines \<Rightarrow> (string \<rightharpoonup> AttributeBuffer) \<Rightarrow> (string \<times> AttributeBuffer) list \<Rightarrow>
     ('r, 'w, 'u) Query \<Rightarrow> heap \<Rightarrow> (Status \<times> ('r, 'w, 'u) Query \<times> heap) outcome" where
  "copy_buffers_loop E existing [] q h = Returns (Ok, q, h)"
| "copy_buffers_loop E existing ((name, buffer) # rest) q h =
     (case existing name of
        Some existing_buffer \<Rightarrow>
          (case (deref h (ab_buffer_size existing_buffer), deref h (ab_buffer_size buffer)) of
             (Some existing_size, Some new_size) \<Rightarrow>
               if existing_size \<noteq> new_size then
                 Returns (QueryError (fixed_size_mismatch existing_size new_size), q, h)
               else
                 (case memcpy (ab_buffer existing_buffer) (ab_buffer buffer) (unat new_size) h of
                    None \<Rightarrow> Undefined
                  | Some h1 \<Rightarrow>
                      (let h2 = free (ab_buffer_size buffer) (free (ab_buffer buffer) h1)
                       in if ab_buffer_var buffer \<noteq> None then
                            (case (deref h2 (ab_buffer_var_size existing_buffer),
                                   deref h2 (ab_buffer_var_size buffer)) of
                               (Some existing_var_size, Some new_var_size) \<Rightarrow>
                                 if existing_var_size \<noteq> new_var_size then
                                   Returns (QueryError
                                     (var_size_mismatch existing_var_size new_var_size), q, h2)
                                 else
                                   (case memcpy (ab_buffer_var existing_buffer) (ab_buffer_var buffer)
                                           (unat new_var_size) h2 of
                                      None \<Rightarrow> Undefined
                                    | Some h3 \<Rightarrow>
                                        copy_buffers_loop E existing rest q
                                          (free (ab_buffer_var_size buffer)
                                             (free (ab_buffer_var buffer) h3)))
                             | _ \<Rightarrow> Undefined)
                          else copy_buffers_loop E existing rest q h2))
           | _ \<Rightarrow> Undefined)
      | None \<Rightarrow>
          if ab_buffer_var buffer \<noteq> None then
            copy_buffers_loop E existing rest
              (snd (set_buffer_var E name (ab_buffer_var buffer) (ab_buffer_var_size buffer)
                      (ab_buffer buffer) (ab_buffer_size buffer) q)) h
          else
            copy_buffers_loop E existing rest
              (snd (set_buffer E name (ab_buffer buffer) (ab_buffer_size buffer) q)) h)"

definition copy_buffers ::
  "('r, 'w) engines \<Rightarrow> ('r, 'w, 'u) Query \<Rightarrow> ('r, 'w, 'u) Query \<Rightarrow> heap \<Rightarrow>
     (Status \<times> ('r, 'w, 'u) Query \<times> heap) outcome" where
  "copy_buffers E query q h =
     (let buffers = attribute_buffers E query;
          existing_buffers = map_of (attribute_buffers E q)
      in copy_buffers_loop E existing_buffers buffers q h)"

text \<open>
  \<open>Query::copy_json_wip\<close>.  Each of the ten numeric arms of its \<open>switch\<close> calls
  \<open>set_subarray\<close> on the donor's subarray and drops the \<open>Status\<close>; the other eight share
  the \<open>assert(false)\<close>.  \<open>array_schema()->domain()\<close> on a query without a schema dereferences
  a null pointer.
\<close>

definition copy_json_wip ::
  "bool \<Rightarrow> ('r, 'w) engines \<Rightarrow> ('r, 'w, 'u) Query \<Rightarrow> ('r, 'w, 'u) Query \<Rightarrow> heap \<Rightarrow>
     (Status \<times> ('r, 'w, 'u) Query \<times> heap) outcome" where
  "copy_json_wip ndebug E query q h =
     (let q1 = q\<lparr>q_type := q_type query\<rparr>;
          q2 = assign_status (q_status query) q1;
          q3 = snd (set_layout E (q_layout query) q2)
      in case array_schema E q3 of
           None \<Rightarrow> Undefined
         | Some schema \<Rightarrow>
             (let numeric_arm =
                    (case set_subarray ndebug E (subarray E query) q3 of
                       Returns (st, q4) \<Rightarrow> copy_buffers E query q4 h
                     | AssertFailed \<Rightarrow> AssertFailed
                     | Undefined \<Rightarrow> Undefined)
              in case dom_type (schema_domain schema) of
                   INT8 \<Rightarrow> numeric_arm
                 | UINT8 \<Rightarrow> numeric_arm
                 | INT16 \<Rightarrow> numeric_arm
                 | UINT16 \<Rightarrow> numeric_arm
                 | INT32 \<Rightarrow> numeric_arm
                 | UINT32 \<Rightarrow> numeric_arm
                 | INT64 \<Rightarrow> numeric_arm
                 | UINT64 \<Rightarrow> numeric_arm
                 | FLOAT32 \<Rightarrow> numeric_arm
                 | FLOAT64 \<Rightarrow> numeric_arm
                 | _ \<Rightarrow> (if ndebug then copy_buffers E query q3 h else AssertFailed)))"

section \<open>Notions used to state the properties\<close>

text \<open>
  What the engine of the query's type answers when \<open>process\<close> runs it, and whether the
  run completes: \<open>reader_.read()\<close> or \<open>writer_.write()\<close> returned OK and, for a read, the
  reader does not report \<open>incomplete()\<close> afterwards.
\<close>

definition engine_status :: "('r, 'w) engines \<Rightarrow> ('r, 'w, 'u) Query \<Rightarrow> Status" where
  "engine_status E q =
     (if q_type q = READ then fst (reader_read E (q_reader q))
      else fst (writer_write E (q_writer q)))"

definition completes :: "('r, 'w) engines \<Rightarrow> ('r, 'w, 'u) Query \<Rightarrow> bool" where
  "completes E q =
     (ok (engine_status E q) \<and>
      (q_type q = WRITE \<or> \<not> reader_incomplete E (snd (reader_read E (q_reader q)))))"

text \<open>The query once its engine has run, and once its callback, if any, has been called.\<close>

definition after_engine ::
  "('r, 'w) engines \<Rightarrow> ('r, 'w, 'u) Query \<Rightarrow> ('r, 'w, 'u) Query" where
  "after_engine E q =
     (if q_type q = READ then q\<lparr>q_reader := snd (reader_read E (q_reader q))\<rparr>
      else q\<lparr>q_writer := snd (writer_write E (q_writer q))\<rparr>)"

definition after_callback :: "('r, 'w, 'u) Query \<Rightarrow> ('r, 'w, 'u) Query" where
  "after_callback q =
     (case q_callback q of
        None \<Rightarrow> q
      | Some f \<Rightarrow> q\<lparr>q_callback_data := f (q_callback_data q),
                       events := events q @ [CallbackInvoked]\<rparr>)"

text \<open>The ten numeric domain types.\<close>

definition numeric_types :: "Datatype set" where
  "numeric_types = {INT8, UINT8, INT16, UINT16, INT32, UINT32, INT64, UINT64, FLOAT32, FLOAT64}"

text \<open>
  The specification's condition on dimension \<open>i\<close> of a subarray, with \<open>operator<=\<close> of the
  domain type as \<open>le\<close>: \<open>subarray[2i] >= dim_domain[0]\<close>, \<open>subarray[2i+1] <= dim_domain[1]\<close> and
  \<open>subarray[2i] <= subarray[2i+1]\<close>; and the condition on the whole subarray, for each of
  the ten numeric types.
\<close>

definition spec_dim_ok ::
  "('a::len word \<Rightarrow> 'a word \<Rightarrow> bool) \<Rightarrow> Domain \<Rightarrow> mem \<Rightarrow> nat \<Rightarrow> bool" where
  "spec_dim_ok le D sub i =
     (le (elem (dim_domain (dimension D i)) 0) (elem sub (2 * i)) \<and>
      le (elem sub (2 * i + 1)) (elem (dim_domain (dimension D i)) 1) \<and>
      le (elem sub (2 * i)) (elem sub (2 * i + 1)))"

definition spec_subarray_ok :: "Domain \<Rightarrow> mem \<Rightarrow> bool" where
  "spec_subarray_ok D sub =
     (case dom_type D of
        INT8 \<Rightarrow> (\<forall>i < dim_num D. spec_dim_ok (word_sle :: 8 word \<Rightarrow> _) D sub i)
      | UINT8 \<Rightarrow> (\<forall>i < dim_num D. spec_dim_ok ((\<le>) :: 8 word \<Rightarrow> _) D sub i)
      | INT16 \<Rightarrow> (\<forall>i < dim_num D. spec_dim_ok (word_sle :: 16 word \<Rightarrow> _) D sub i)
      | UINT16 \<Rightarrow> (\<forall>i < dim_num D. spec_dim_ok ((\<le>) :: 16 word \<Rightarrow> _) D sub i)
      | INT32 \<Rightarrow> (\<forall>i < dim_num D. spec_dim_ok (word_sle :: 32 word \<Rightarrow> _) D sub i)
      | UINT32 \<Rightarrow> (\<forall>i < dim_num D. spec_dim_ok ((\<le>) :: 32 word \<Rightarrow> _) D sub i)
      | INT64 \<Rightarrow> (\<forall>i < dim_num D. spec_dim_ok (word_sle :: 64 word \<Rightarrow> _) D sub i)
      | UINT64 \<Rightarrow> (\<forall>i < dim_num D. spec_dim_ok ((\<le>) :: 64 word \<Rightarrow> _) D sub i)
      | FLOAT32 \<Rightarrow> (\<forall>i < dim_num D. spec_dim_ok float_le D sub i)
      | FLOAT64 \<Rightarrow> (\<forall>i < dim_num D. spec_dim_ok double_le D sub i)
      | _ \<Rightarrow> False)"

text \<open>
  No NaN among the two bounds of dimension \<open>i\<close> and the two subarray values for it; and the
  same for every dimension of a floating-point domain.
\<close>

definition dim_nan_free :: "('a::len word \<Rightarrow> bool) \<Rightarrow> Domain \<Rightarrow> mem \<Rightarrow> nat \<Rightarrow> bool" where
  "dim_nan_free isnan D sub i =
     (\<not> isnan (elem (dim_domain (dimension D i)) 0) \<and>
      \<not> isnan (elem (dim_domain (dimension D i)) 1) \<and>
      \<not> isnan (elem sub (2 * i)) \<and>
      \<not> isnan (elem sub (2 * i + 1)))"

definition nan_free :: "Domain \<Rightarrow> mem \<Rightarrow> bool" where
  "nan_free D sub =
     (case dom_type D of
        FLOAT32 \<Rightarrow> (\<forall>i < dim_num D. dim_nan_free float_isnan D sub i)
      | FLOAT64 \<Rightarrow> (\<forall>i < dim_num D. dim_nan_free double_isnan D sub i)
      | _ \<Rightarrow> True)"

text \<open>
  What the validation does on one dimension, with \<open>operator<\<close> as \<open>lt\<close>: a bound lies outside
  the dimension's domain; the range is empty; neither.
\<close>

definition dim_out_of_bounds ::
  "('a::len word \<Rightarrow> 'a word \<Rightarrow> bool) \<Rightarrow> Domain \<Rightarrow> mem \<Rightarrow> nat \<Rightarrow> bool" where
  "dim_out_of_bounds lt D sub i =
     (lt (elem sub (2 * i)) (elem (dim_domain (dimension D i)) 0) \<or>
      lt (elem (dim_domain (dimension D i)) 1) (elem sub (2 * i + 1)))"

definition dim_empty_range :: "('a::len word \<Rightarrow> 'a word \<Rightarrow> bool) \<Rightarrow> mem \<Rightarrow> nat \<Rightarrow> bool" where
  "dim_empty_range lt sub i = lt (elem sub (2 * i + 1)) (elem sub (2 * i))"

definition dim_ok ::
  "('a::len word \<Rightarrow> 'a word \<Rightarrow> bool) \<Rightarrow> Domain \<Rightarrow> mem \<Rightarrow> nat \<Rightarrow> bool" where
  "dim_ok lt D sub i = (\<not> dim_out_of_bounds lt D sub i \<and> \<not> dim_empty_range lt sub i)"

text \<open>The same two findings on dimension \<open>i\<close>, with the comparison of the domain's type.\<close>

definition out_of_bounds_at :: "Domain \<Rightarrow> mem \<Rightarrow> nat \<Rightarrow> bool" where
  "out_of_bounds_at D sub i =
     (case dom_type D of
        INT8 \<Rightarrow> dim_out_of_bounds (word_sless :: 8 word \<Rightarrow> _) D sub i
      | UINT8 \<Rightarrow> dim_out_of_bounds ((<) :: 8 word \<Rightarrow> _) D sub i
      | INT16 \<Rightarrow> dim_out_of_bounds (word_sless :: 16 word \<Rightarrow> _) D sub i
      | UINT16 \<Rightarrow> dim_out_of_bounds ((<) :: 16 word \<Rightarrow> _) D sub i
      | INT32 \<Rightarrow> dim_out_of_bounds (word_sless :: 32 word \<Rightarrow> _) D sub i
      | UINT32 \<Rightarrow> dim_out_of_bounds ((<) :: 32 word \<Rightarrow> _) D sub i
      | INT64 \<Rightarrow> dim_out_of_bounds (word_sless :: 64 word \<Rightarrow> _) D sub i
      | UINT64 \<Rightarrow> dim_out_of_bounds ((<) :: 64 word \<Rightarrow> _) D sub i
      | FLOAT32 \<Rightarrow> dim_out_of_bounds float_less D sub i
      | FLOAT64 \<Rightarrow> dim_out_of_bounds double_less D sub i
      | _ \<Rightarrow> False)"

definition empty_range_at :: "Domain \<Rightarrow> mem \<Rightarrow> nat \<Rightarrow> bool" where
  "empty_range_at D sub i =
     (case dom_type D of
        INT8 \<Rightarrow> dim_empty_range (word_sless :: 8 word \<Rightarrow> _) sub i
      | UINT8 \<Rightarrow> dim_empty_range ((<) :: 8 word \<Rightarrow> _) sub i
      | INT16 \<Rightarrow> dim_empty_range (word_sless :: 16 word \<Rightarrow> _) sub i
      | UINT16 \<Rightarrow> dim_empty_range ((<) :: 16 word \<Rightarrow> _) sub i
      | INT32 \<Rightarrow> dim_empty_range (word_sless :: 32 word \<Rightarrow> _) sub i
      | UINT32 \<Rightarrow> dim_empty_range ((<) :: 32 word \<Rightarrow> _) sub i
      | INT64 \<Rightarrow> dim_empty_range (word_sless :: 64 word \<Rightarrow> _) sub i
      | UINT64 \<Rightarrow> dim_empty_range ((<) :: 64 word \<Rightarrow> _) sub i
      | FLOAT32 \<Rightarrow> dim_empty_range float_less sub i
      | FLOAT64 \<Rightarrow> dim_empty_range double_less sub i
      | _ \<Rightarrow> False)"

text \<open>The specification's names for the two errors of the validation.\<close>

definition SubarrayOutOfBounds :: Status where
  "SubarrayOutOfBounds = QueryError ''Subarray out of bounds''"

definition InvalidSubarrayRange :: Status where
  "InvalidSubarrayRange = QueryError ''Subarray lower bound is larger than upper bound''"

text \<open>What the engine of the query's type answers to \<open>set_subarray\<close>.\<close>

definition engine_set_subarray_status ::
  "('r, 'w) engines \<Rightarrow> mem option \<Rightarrow> ('r, 'w, 'u) Query \<Rightarrow> Status" where
  "engine_set_subarray_status E sub q =
     (if q_type q = WRITE then fst (writer_set_subarray E sub (q_writer q))
      else fst (reader_set_subarray E sub (q_reader q)))"

text \<open>The specification's name for the error of \<open>process\<close> on an uninitialized query.\<close>

definition NotInitialized :: Status where
  "NotInitialized = QueryError ''Cannot process query; Query is not initialized''"

text \<open>
  One round of the loop of \<open>copy_buffers\<close>: what it does with one buffer of the donor.  It
  returns OK where the loop goes on to the next buffer; \<open>copy_buffers_loop\<close> is this round
  repeated until one does not return OK.
\<close>

definition copy_one ::
  "('r, 'w) engines \<Rightarrow> (string \<rightharpoonup> AttributeBuffer) \<Rightarrow> string \<times> AttributeBuffer \<Rightarrow>
     ('r, 'w, 'u) Query \<Rightarrow> heap \<Rightarrow> (Status \<times> ('r, 'w, 'u) Query \<times> heap) outcome" where
  "copy_one E existing nb q h = copy_buffers_loop E existing [nb] q h"

text \<open>
  The specification's name for the two size-mismatch errors; an error that reports the
  two given sizes; and the addresses a copy into the receiver's buffers may write: for each buffer of the donor that the receiver
  has too, the receiver's fixed and variable payloads, as long as the donor's sizes say.
\<close>

definition is_BufferSizeMismatch :: "Status \<Rightarrow> bool" where
  "is_BufferSizeMismatch st =
     (case st of QueryError msg \<Rightarrow> take 15 msg = ''Existing buffer'' | _ \<Rightarrow> False)"

definition reports_sizes :: "Status \<Rightarrow> 64 word \<Rightarrow> 64 word \<Rightarrow> bool" where
  "reports_sizes st existing_size new_size =
     (st = QueryError (fixed_size_mismatch existing_size new_size) \<or>
      st = QueryError (var_size_mismatch existing_size new_size))"

definition region :: "ptr \<Rightarrow> nat \<Rightarrow> addr set" where
  "region p n = (case p of None \<Rightarrow> {} | Some a \<Rightarrow> {a ..< a + n})"

definition size_at :: "heap \<Rightarrow> ptr \<Rightarrow> nat" where
  "size_at h p = (case deref h p of None \<Rightarrow> 0 | Some w \<Rightarrow> unat w)"

fun touched :: "(string \<rightharpoonup> AttributeBuffer) \<Rightarrow> heap \<Rightarrow> (string \<times> AttributeBuffer) list \<Rightarrow> addr set" where
  "touched existing h [] = {}"
| "touched existing h ((name, buffer) # rest) =
     (case existing name of
        None \<Rightarrow> {}
      | Some existing_buffer \<Rightarrow>
          region (ab_buffer existing_buffer) (size_at h (ab_buffer_size buffer)) \<union>
          region (ab_buffer_var existing_buffer) (size_at h (ab_buffer_var_size buffer)))
     \<union> touched existing h rest"

text \<open>The receiver of \<open>copy_json_wip\<close> when control reaches the \<open>switch\<close>.\<close>

definition receiver_at_switch ::
  "('r, 'w) engines \<Rightarrow> ('r, 'w, 'u) Query \<Rightarrow> ('r, 'w, 'u) Query \<Rightarrow> ('r, 'w, 'u) Query" where
  "receiver_at_switch E query q =
     snd (set_layout E (q_layout query) (assign_status (q_status query) (q\<lparr>q_type := q_type query\<rparr>)))"

section \<open>Concrete inputs\<close>

text \<open>The offsets buffers \<open>[0, 5, 7, 8]\<close> and \<open>[0, 5, 5, 8]\<close> (the latter repeats an offset).\<close>

definition ex_offsets_ascending :: "nat \<Rightarrow> 64 word" where
  "ex_offsets_ascending i = [0, 5, 7, 8] ! i"

definition ex_offsets_repeated :: "nat \<Rightarrow> 64 word" where
  "ex_offsets_repeated i = [0, 5, 5, 8] ! i"

text \<open>
  An engine for concrete runs: its state holds a schema, the registered buffers, a
  subarray and the number of calls made; every call that returns a \<open>Status\<close> answers \<open>st\<close>,
  and \<open>incomplete()\<close> answers \<open>inc\<close>.
\<close>

record test_engine =
  te_schema :: "ArraySchema option"
  te_buffers :: "(string \<times> AttributeBuffer) list"
  te_subarray :: "mem option"
  te_calls :: nat

definition te_call :: "Status \<Rightarrow> test_engine \<Rightarrow> Status \<times> test_engine" where
  "te_call st e = (st, e\<lparr>te_calls := te_calls e + 1\<rparr>)"

definition test_engines :: "Status \<Rightarrow> bool \<Rightarrow> (test_engine, test_engine) engines" where
  "test_engines st inc =
     \<lparr>reader_array_schema = te_schema,
      writer_array_schema = te_schema,
      reader_attribute_buffers = te_buffers,
      writer_attribute_buffers = te_buffers,
      reader_subarray = te_subarray,
      writer_subarray = te_subarray,
      reader_init = te_call st,
      writer_init = te_call st,
      reader_read = te_call st,
      writer_write = te_call st,
      reader_incomplete = (\<lambda>e. inc),
      writer_finalize = te_call st,
      reader_set_buffer = (\<lambda>a b s. te_call st),
      writer_set_buffer = (\<lambda>a b s. te_call st),
      reader_set_buffer_var = (\<lambda>a b s v t. te_call st),
      writer_set_buffer_var = (\<lambda>a b s v t. te_call st),
      reader_set_layout = (\<lambda>l. te_call st),
      writer_set_layout = (\<lambda>l. te_call st),
      reader_set_subarray = (\<lambda>s e. te_call st (e\<lparr>te_subarray := s\<rparr>)),
      writer_set_subarray = (\<lambda>s e. te_call st (e\<lparr>te_subarray := s\<rparr>))\<rparr>"

definition test_engine0 :: test_engine where
  "test_engine0 = \<lparr>te_schema = None, te_buffers = [], te_subarray = None, te_calls = 0\<rparr>"

text \<open>A query of the given type and status, with a callback that counts its calls.\<close>

definition test_query :: "QueryType \<Rightarrow> QueryStatus \<Rightarrow> (test_engine, test_engine, nat) Query" where
  "test_query t s =
     \<lparr>q_type = t, q_status = s, q_layout = ROW_MAJOR, q_callback = Some Suc,
      q_callback_data = 0, q_reader = test_engine0, q_writer = test_engine0, events = []\<rparr>"

text \<open>
  A schema with one \<open>INT32\<close> dimension of domain \<open>[0, 9]\<close>, and one with one \<open>FLOAT64\<close>
  dimension of domain \<open>[0.0, 1.0]\<close>; subarrays for them, as the bytes in memory.
\<close>

definition schema_of :: "Datatype \<Rightarrow> byte list \<Rightarrow> ArraySchema" where
  "schema_of t bs =
     \<lparr>schema_domain =
        \<lparr>dom_type = t,
         dimensions = [\<lparr>dim_name = ''d'', dim_type = t, dim_domain = mem_of bs\<rparr>]\<rparr>\<rparr>"

definition int32_schema :: ArraySchema where
  "int32_schema = schema_of INT32 [0, 0, 0, 0, 9, 0, 0, 0]"

definition int32_0_9 :: mem where
  "int32_0_9 = mem_of [0, 0, 0, 0, 9, 0, 0, 0]"

definition int32_0_10 :: mem where
  "int32_0_10 = mem_of [0, 0, 0, 0, 10, 0, 0, 0]"

definition int32_5_3 :: mem where
  "int32_5_3 = mem_of [5, 0, 0, 0, 3, 0, 0, 0]"

definition float64_schema :: ArraySchema where
  "float64_schema = schema_of FLOAT64 [0, 0, 0, 0, 0, 0, 0, 0, 0, 0, 0, 0, 0, 0, 0xF0, 0x3F]"

definition float64_nan_nan :: mem where
  "float64_nan_nan = mem_of [0, 0, 0, 0, 0, 0, 0xF8, 0x7F, 0, 0, 0, 0, 0, 0, 0xF8, 0x7F]"

definition char_schema :: ArraySchema where
  "char_schema = schema_of Datatype.CHAR [0, 9]"

text \<open>The same query with a schema installed in both engines.\<close>

definition with_schema ::
  "ArraySchema \<Rightarrow> (test_engine, test_engine, nat) Query \<Rightarrow> (test_engine, test_engine, nat) Query" where
  "with_schema sch q =
     q\<lparr>q_reader := (q_reader q)\<lparr>te_schema := Some sch\<rparr>,
       q_writer := (q_writer q)\<lparr>te_schema := Some sch\<rparr>\<rparr>"

text \<open>A write query after \<open>init()\<close> and then \<open>cancel()\<close>.\<close>

definition cancelled_query :: "(test_engine, test_engine, nat) Query" where
  "cancelled_query =
     snd (cancel (snd (init (test_engines Ok False) (test_query WRITE UNINITIALIZED))))"

text \<open>
  Buffers for the copy: a fixed attribute \<open>a\<close> of 40 bytes in the receiver and 48 in the
  donor, and a variable attribute \<open>v\<close> whose offsets take 8 bytes in both and whose values
  take 10 bytes in the receiver and 12 in the donor.  The donor's payloads hold the byte 7,
  the receiver's the byte 0.
\<close>

definition test_heap :: heap where
  "test_heap =
     \<lparr>bytes = (\<lambda>a. if 2000 \<le> a then 7 else 0),
      cells = (\<lambda>c. [0, 8, 8, 10, 12, 40, 48] ! c),
      freed = []\<rparr>"

definition recv_a :: AttributeBuffer where
  "recv_a = \<lparr>ab_buffer = Some 1000, ab_buffer_var = None, ab_buffer_size = Some 5,
             ab_buffer_var_size = None\<rparr>"

definition donor_a :: AttributeBuffer where
  "donor_a = \<lparr>ab_buffer = Some 2000, ab_buffer_var = None, ab_buffer_size = Some 6,
              ab_buffer_var_size = None\<rparr>"

definition recv_v :: AttributeBuffer where
  "recv_v = \<lparr>ab_buffer = Some 1100, ab_buffer_var = Some 1200, ab_buffer_size = Some 1,
             ab_buffer_var_size = Some 3\<rparr>"

definition donor_v :: AttributeBuffer where
  "donor_v = \<lparr>ab_buffer = Some 2100, ab_buffer_var = Some 2200, ab_buffer_size = Some 2,
              ab_buffer_var_size = Some 4\<rparr>"

text \<open>A second fixed attribute \<open>b\<close>, of 10 bytes in the receiver and 12 in the donor.\<close>

definition recv_b :: AttributeBuffer where
  "recv_b = \<lparr>ab_buffer = Some 1300, ab_buffer_var = None, ab_buffer_size = Some 3,
             ab_buffer_var_size = None\<rparr>"

definition donor_b :: AttributeBuffer where
  "donor_b = \<lparr>ab_buffer = Some 2300, ab_buffer_var = None, ab_buffer_size = Some 4,
              ab_buffer_var_size = None\<rparr>"

definition with_buffers ::
  "(string \<times> AttributeBuffer) list \<Rightarrow> (test_engine, test_engine, nat) Query \<Rightarrow>
     (test_engine, test_engine, nat) Query" where
  "with_buffers bufs q =
     q\<lparr>q_reader := (q_reader q)\<lparr>te_buffers := bufs\<rparr>,
       q_writer := (q_writer q)\<lparr>te_buffers := bufs\<rparr>\<rparr>"

definition with_subarray ::
  "mem option \<Rightarrow> (test_engine, test_engine, nat) Query \<Rightarrow> (test_engine, test_engine, nat) Query" where
  "with_subarray sub q =
     q\<lparr>q_reader := (q_reader q)\<lparr>te_subarray := sub\<rparr>,
       q_writer := (q_writer q)\<lparr>te_subarray := sub\<rparr>\<rparr>"

text \<open>
  A donor that is \<open>COMPLETED\<close> and holds the subarray \<open>[0, 9]\<close>, and a receiver that is
  \<open>INPROGRESS\<close>, both on the \<open>INT32\<close> schema and without buffers.
\<close>

definition donor_query :: "(test_engine, test_engine, nat) Query" where
  "donor_query = with_subarray (Some int32_0_9) (with_schema int32_schema (test_query READ COMPLETED))"

definition receiver_query :: "(test_engine, test_engine, nat) Query" where
  "receiver_query = with_schema int32_schema (test_query READ INPROGRESS)"

section \<open>Properties of the offsets validation\<close>

lemma offsets_loop_Ok_iff:
  "1 \<le> i \<Longrightarrow> prev = off (i - 1) \<Longrightarrow>
   offsets_loop off vs n i prev = Ok \<longleftrightarrow>
     (\<forall>j. i \<le> j \<and> j < n \<longrightarrow> off j > off (j - 1) \<and> off j < vs)"
proof (induction off vs n i prev rule: offsets_loop.induct)
  case (1 off vs n i prev)
  show ?case
  proof (cases "i < n")
    case False
    then show ?thesis by (auto simp: offsets_loop.simps[of off vs n i prev])
  next
    case True
    show ?thesis
    proof (cases "off i \<le> prev \<or> off i \<ge> vs")
      case bad: True
      then have "offsets_loop off vs n i prev \<noteq> Ok"
        using True by (auto simp: offsets_loop.simps[of off vs n i prev])
      moreover have "\<not> (off i > off (i - 1) \<and> off i < vs)"
        using bad 1(3) by auto
      ultimately show ?thesis using True by blast
    next
      case good: False
      then have eq: "offsets_loop off vs n i prev = offsets_loop off vs n (i + 1) (off i)"
        using True by (simp add: offsets_loop.simps[of off vs n i prev])
      have IH: "offsets_loop off vs n (i + 1) (off i) = Ok \<longleftrightarrow>
          (\<forall>j. i + 1 \<le> j \<and> j < n \<longrightarrow> off j > off (j - 1) \<and> off j < vs)"
        by (rule 1(1)) (use True good in simp_all)
      have "(\<forall>j. i \<le> j \<and> j < n \<longrightarrow> off j > off (j - 1) \<and> off j < vs) \<longleftrightarrow>
            (off i > off (i - 1) \<and> off i < vs) \<and> (\<forall>j. i + 1 \<le> j \<and> j < n \<longrightarrow> off j > off (j - 1) \<and> off j < vs)"
      proof (intro iffI conjI allI impI)
        fix j assume a: "(off (i - 1) < off i \<and> off i < vs) \<and> (\<forall>j. i + 1 \<le> j \<and> j < n \<longrightarrow> off (j - 1) < off j \<and> off j < vs)" and b: "i \<le> j \<and> j < n"
        show "off (j - 1) < off j" "off j < vs"
        proof -
          have "j = i \<or> i + 1 \<le> j" using b by arith
          then show "off (j - 1) < off j" "off j < vs" using a b by blast+
        qed
      qed (use True in auto)
      then show ?thesis using eq IH good 1(3) by auto
    qed
  qed
qed

lemma offsets_loop_err: "offsets_loop off vs n i prev \<noteq> Ok \<Longrightarrow> is_InvalidOffsets (offsets_loop off vs n i prev)"
proof (induction off vs n i prev rule: offsets_loop.induct)
  case (1 off vs n i prev)
  then show ?case
    by (simp add: offsets_loop.simps[of off vs n i prev] is_InvalidOffsets_def split: if_splits)
qed


text \<open>
  Claim C2.  \<open>check_var_attr_offsets\<close> fails with the null-buffer error when any of its three
  pointers is null.  Otherwise, with \<open>n = offsets_size / 8\<close>, it returns OK when \<open>n = 0\<close>; for
  \<open>n > 0\<close> it returns OK exactly when \<open>offsets[0] < values_size\<close> and every later offset is
  greater than its predecessor and less than \<open>values_size\<close>, and any other result is an
  invalid-offsets error.
\<close>

theorem check_var_attr_offsets_spec:
  "(buffer_off = None \<or> buffer_off_size = None \<or> buffer_val_size = None \<longrightarrow>
      check_var_attr_offsets buffer_off buffer_off_size buffer_val_size = NullBuffer) \<and>
   (unat off_size div 8 = 0 \<longrightarrow>
      check_var_attr_offsets (Some off) (Some off_size) (Some val_size) = Ok) \<and>
   (unat off_size div 8 > 0 \<longrightarrow>
      (check_var_attr_offsets (Some off) (Some off_size) (Some val_size) = Ok \<longleftrightarrow>
         off 0 < val_size \<and>
         (\<forall>i. 1 \<le> i \<and> i < unat off_size div 8 \<longrightarrow> off i > off (i - 1) \<and> off i < val_size)) \<and>
      (check_var_attr_offsets (Some off) (Some off_size) (Some val_size) \<noteq> Ok \<longrightarrow>
         is_InvalidOffsets (check_var_attr_offsets (Some off) (Some off_size) (Some val_size))))"
proof (intro conjI impI)
  assume "buffer_off = None \<or> buffer_off_size = None \<or> buffer_val_size = None"
  then show "check_var_attr_offsets buffer_off buffer_off_size buffer_val_size = NullBuffer"
    by (auto simp: check_var_attr_offsets_def NullBuffer_def split: option.splits)
next
  assume "unat off_size div 8 = 0"
  then show "check_var_attr_offsets (Some off) (Some off_size) (Some val_size) = Ok"
    by (simp add: check_var_attr_offsets_def)
next
  assume n: "unat off_size div 8 > 0"
  show "check_var_attr_offsets (Some off) (Some off_size) (Some val_size) = Ok \<longleftrightarrow>
         off 0 < val_size \<and>
         (\<forall>i. 1 \<le> i \<and> i < unat off_size div 8 \<longrightarrow> off i > off (i - 1) \<and> off i < val_size)"
    using n offsets_loop_Ok_iff[of 1 "off 0" off val_size "unat off_size div 8"]
    by (auto simp: check_var_attr_offsets_def Let_def)
next
  assume n: "unat off_size div 8 > 0"
  assume "check_var_attr_offsets (Some off) (Some off_size) (Some val_size) \<noteq> Ok"
  then show "is_InvalidOffsets (check_var_attr_offsets (Some off) (Some off_size) (Some val_size))"
    using n offsets_loop_err[of off val_size "unat off_size div 8" 1 "off 0"]
    by (auto simp: check_var_attr_offsets_def Let_def is_InvalidOffsets_def split: if_splits)
qed

theorem check_var_attr_offsets_spec_witness:
  "check_var_attr_offsets None (Some 32) (Some 10) = NullBuffer \<and>
   check_var_attr_offsets (Some (\<lambda>i. 0)) (Some 7) (Some 10) = Ok \<and>
   0 < unat (32 :: 64 word) div 8 \<and>
   check_var_attr_offsets (Some ex_offsets_ascending) (Some 32) (Some 10) = Ok \<and>
   check_var_attr_offsets (Some ex_offsets_repeated) (Some 32) (Some 10) \<noteq> Ok \<and>
   is_InvalidOffsets (check_var_attr_offsets (Some ex_offsets_repeated) (Some 32) (Some 10))"
proof -
  have n: "unat (32 :: 64 word) div 8 = 4" by simp
  have pos: "0 < unat (32 :: 64 word) div 8" by simp
  have small: "unat (7 :: 64 word) div 8 = 0" by simp
  note good = check_var_attr_offsets_spec [of None "Some 32" "Some 10" 32 ex_offsets_ascending 10]
  note bad = check_var_attr_offsets_spec [of None "Some 32" "Some 10" 32 ex_offsets_repeated 10]
  note empty = check_var_attr_offsets_spec [of None "Some 32" "Some 10" 7 "\<lambda>i. 0" 10]
  have c1: "check_var_attr_offsets None (Some 32) (Some 10) = NullBuffer"
    using good by blast
  have c2: "check_var_attr_offsets (Some (\<lambda>i. 0)) (Some 7) (Some 10) = Ok"
    using empty small by blast
  have asc: "\<forall>i. 1 \<le> i \<and> i < unat (32 :: 64 word) div 8 \<longrightarrow>
      ex_offsets_ascending (i - 1) < ex_offsets_ascending i \<and> ex_offsets_ascending i < 10"
  proof (intro allI impI)
    fix i :: nat
    assume "1 \<le> i \<and> i < unat (32 :: 64 word) div 8"
    then have "i = 1 \<or> i = 2 \<or> i = 3" unfolding n by arith
    then show "ex_offsets_ascending (i - 1) < ex_offsets_ascending i \<and> ex_offsets_ascending i < 10"
      by (auto simp: ex_offsets_ascending_def)
  qed
  have first: "ex_offsets_ascending 0 < 10"
    by (simp add: ex_offsets_ascending_def)
  have c3: "check_var_attr_offsets (Some ex_offsets_ascending) (Some 32) (Some 10) = Ok"
    using good pos asc first by blast
  have "\<not> (ex_offsets_repeated (2 - 1) < ex_offsets_repeated 2 \<and> ex_offsets_repeated 2 < 10)"
    by (simp add: ex_offsets_repeated_def)
  moreover have "(1::nat) \<le> 2 \<and> 2 < unat (32 :: 64 word) div 8"
    by simp
  ultimately have rep: "\<not> (\<forall>i. 1 \<le> i \<and> i < unat (32 :: 64 word) div 8 \<longrightarrow>
      ex_offsets_repeated (i - 1) < ex_offsets_repeated i \<and> ex_offsets_repeated i < 10)"
    by blast
  have c4: "check_var_attr_offsets (Some ex_offsets_repeated) (Some 32) (Some 10) \<noteq> Ok"
    using bad pos rep by blast
  have c5: "is_InvalidOffsets (check_var_attr_offsets (Some ex_offsets_repeated) (Some 32) (Some 10))"
    using bad pos c4 by blast
  show ?thesis using c1 c2 pos c3 c4 c5 by blast
qed

section \<open>Properties of the status machine\<close>

lemma assign_status_simps:
  "q_status (assign_status s q) = s"
  "events (assign_status s q) = events q @ [StatusAssigned s]"
  "q_type (assign_status s q) = q_type q"
  "q_callback (assign_status s q) = q_callback q"
  "q_callback_data (assign_status s q) = q_callback_data q"
  "q_reader (assign_status s q) = q_reader q"
  "q_writer (assign_status s q) = q_writer q"
  "q_layout (assign_status s q) = q_layout q"
  by (simp_all add: assign_status_def)

lemmas test_defs = test_engines_def test_query_def test_engine0_def te_call_def


lemma process_unfold:
  "process E q =
     (if q_status q = UNINITIALIZED then (NotInitialized, q)
      else if \<not> ok (engine_status E q) then
        (engine_status E q, assign_status FAILED (after_engine E (assign_status INPROGRESS q)))
      else if completes E q then
        (Ok, assign_status COMPLETED (after_callback (after_engine E (assign_status INPROGRESS q))))
      else (Ok, assign_status INCOMPLETE (after_engine E (assign_status INPROGRESS q))))"
proof (cases "q_type q")
  case READ
  then show ?thesis
    by (simp add: process_def NotInitialized_def engine_status_def completes_def after_engine_def
        after_callback_def assign_status_def Let_def case_prod_beta split: option.split)
next
  case WRITE
  then show ?thesis
    by (simp add: process_def NotInitialized_def engine_status_def completes_def after_engine_def
        after_callback_def assign_status_def Let_def case_prod_beta split: option.split)
qed

lemma after_engine_simps:
  "q_status (after_engine E q) = q_status q"
  "events (after_engine E q) = events q"
  "q_callback (after_engine E q) = q_callback q"
  "q_callback_data (after_engine E q) = q_callback_data q"
  "q_type (after_engine E q) = q_type q"
  by (simp_all add: after_engine_def)

lemma after_callback_simps:
  "q_status (after_callback q) = q_status q"
  "q_type (after_callback q) = q_type q"
  "q_callback q = None \<Longrightarrow> after_callback q = q"
  "q_callback q = Some f \<Longrightarrow> events (after_callback q) = events q @ [CallbackInvoked]"
  "q_callback q = Some f \<Longrightarrow> q_callback_data (after_callback q) = f (q_callback_data q)"
  by (simp_all add: after_callback_def split: option.splits)

text \<open>
  Claim C9.  After \<open>process()\<close> returns the status is never \<open>INPROGRESS\<close>: it is still
  \<open>UNINITIALIZED\<close> when the call was refused with the not-initialized error, \<open>FAILED\<close> when
  the engine returned an error (which is passed on), and \<open>COMPLETED\<close> or \<open>INCOMPLETE\<close>, with
  OK returned, otherwise.
\<close>

theorem process_status_after:
  "q_status (snd (process E q)) \<noteq> INPROGRESS \<and>
   (q_status q = UNINITIALIZED \<longrightarrow>
      fst (process E q) = NotInitialized \<and> q_status (snd (process E q)) = UNINITIALIZED) \<and>
   (q_status q \<noteq> UNINITIALIZED \<and> \<not> ok (engine_status E q) \<longrightarrow>
      fst (process E q) = engine_status E q \<and> q_status (snd (process E q)) = FAILED) \<and>
   (q_status q \<noteq> UNINITIALIZED \<and> ok (engine_status E q) \<longrightarrow>
      fst (process E q) = Ok \<and>
      (q_status (snd (process E q)) = COMPLETED \<or> q_status (snd (process E q)) = INCOMPLETE))"
proof (cases "q_status q = UNINITIALIZED")
  case True
  then show ?thesis
    by (simp add: process_unfold)
next
  case init: False
  show ?thesis
  proof (cases "ok (engine_status E q)")
    case False
    then show ?thesis
      using init by (simp add: process_unfold assign_status_simps)
  next
    case True
    then show ?thesis
      using init by (cases "completes E q") (simp_all add: process_unfold assign_status_simps)
  qed
qed

theorem process_status_after_witness:
  "q_status (test_query READ UNINITIALIZED) = UNINITIALIZED \<and>
   fst (process (test_engines Ok True) (test_query READ UNINITIALIZED)) = NotInitialized \<and>
   q_status (snd (process (test_engines Ok True) (test_query READ UNINITIALIZED))) = UNINITIALIZED \<and>
   \<not> ok (engine_status (test_engines (ReaderError ''io'') True) (test_query READ INPROGRESS)) \<and>
   fst (process (test_engines (ReaderError ''io'') True) (test_query READ INPROGRESS)) = ReaderError ''io'' \<and>
   q_status (snd (process (test_engines (ReaderError ''io'') True) (test_query READ INPROGRESS))) = FAILED \<and>
   ok (engine_status (test_engines Ok True) (test_query READ INPROGRESS)) \<and>
   fst (process (test_engines Ok True) (test_query READ INPROGRESS)) = Ok \<and>
   q_status (snd (process (test_engines Ok True) (test_query READ INPROGRESS))) = INCOMPLETE"
proof -
  have u: "q_status (test_query READ UNINITIALIZED) = UNINITIALIZED"
    and i: "q_status (test_query READ INPROGRESS) \<noteq> UNINITIALIZED"
    by (simp_all add: test_query_def)
  have bad: "engine_status (test_engines (ReaderError ''io'') True) (test_query READ INPROGRESS) = ReaderError ''io''"
    and good: "engine_status (test_engines Ok True) (test_query READ INPROGRESS) = Ok"
    by (simp_all add: engine_status_def test_defs)
  have inc: "q_status (snd (process (test_engines Ok True) (test_query READ INPROGRESS))) \<noteq> COMPLETED"
    by (simp add: process_def test_defs assign_status_simps ok_def)
  show ?thesis
    using u i bad good inc
      process_status_after [of "test_engines Ok True" "test_query READ UNINITIALIZED"]
      process_status_after [of "test_engines (ReaderError ''io'') True" "test_query READ INPROGRESS"]
      process_status_after [of "test_engines Ok True" "test_query READ INPROGRESS"]
    by (simp add: ok_def)
qed


text \<open>
  Claim C7.  When a \<open>process()\<close> call completes (the engine returned OK and, for a read,
  the reader is not incomplete), a registered callback is called exactly once in that
  call, after the assignment of \<open>INPROGRESS\<close> and before the assignment of \<open>COMPLETED\<close>; when
  the call ends \<open>INCOMPLETE\<close> or \<open>FAILED\<close>, or is refused, no callback is called.
\<close>

theorem process_callback:
  "(q_status q \<noteq> UNINITIALIZED \<and> completes E q \<longrightarrow>
      fst (process E q) = Ok \<and>
      q_status (snd (process E q)) = COMPLETED \<and>
      (case q_callback q of
         Some f \<Rightarrow>
           events (snd (process E q)) =
             events q @ [StatusAssigned INPROGRESS, CallbackInvoked, StatusAssigned COMPLETED] \<and>
           q_callback_data (snd (process E q)) = f (q_callback_data q)
       | None \<Rightarrow>
           events (snd (process E q)) =
             events q @ [StatusAssigned INPROGRESS, StatusAssigned COMPLETED] \<and>
           q_callback_data (snd (process E q)) = q_callback_data q)) \<and>
   (q_status q \<noteq> UNINITIALIZED \<and> \<not> completes E q \<longrightarrow>
      (q_status (snd (process E q)) = INCOMPLETE \<or> q_status (snd (process E q)) = FAILED) \<and>
      events (snd (process E q)) =
        events q @ [StatusAssigned INPROGRESS, StatusAssigned (q_status (snd (process E q)))] \<and>
      q_callback_data (snd (process E q)) = q_callback_data q) \<and>
   (q_status q = UNINITIALIZED \<longrightarrow> snd (process E q) = q)"
proof (intro conjI impI)
  assume a: "q_status q \<noteq> UNINITIALIZED \<and> completes E q"
  then have okE: "ok (engine_status E q)" by (simp add: completes_def)
  have p: "process E q =
      (Ok, assign_status COMPLETED (after_callback (after_engine E (assign_status INPROGRESS q))))"
    using a okE by (simp add: process_unfold)
  show "fst (process E q) = Ok" by (simp add: p)
  show "q_status (snd (process E q)) = COMPLETED" by (simp add: p assign_status_simps)
  show "case q_callback q of
          None \<Rightarrow>
            events (snd (process E q)) =
              events q @ [StatusAssigned INPROGRESS, StatusAssigned COMPLETED] \<and>
            q_callback_data (snd (process E q)) = q_callback_data q
        | Some f \<Rightarrow>
            events (snd (process E q)) =
              events q @ [StatusAssigned INPROGRESS, CallbackInvoked, StatusAssigned COMPLETED] \<and>
            q_callback_data (snd (process E q)) = f (q_callback_data q)"
  proof (cases "q_callback q")
    case None
    then have "q_callback (after_engine E (assign_status INPROGRESS q)) = None"
      by (simp add: after_engine_simps assign_status_simps)
    then show ?thesis
      using None by (simp add: p after_callback_simps(3) assign_status_simps after_engine_simps)
  next
    case (Some f)
    then have "q_callback (after_engine E (assign_status INPROGRESS q)) = Some f"
      by (simp add: after_engine_simps assign_status_simps)
    then show ?thesis
      using Some
      by (simp add: p after_callback_simps(4,5) assign_status_simps after_engine_simps)
  qed
next
  assume a: "q_status q \<noteq> UNINITIALIZED \<and> \<not> completes E q"
  have p: "process E q =
      (if \<not> ok (engine_status E q) then
         (engine_status E q, assign_status FAILED (after_engine E (assign_status INPROGRESS q)))
       else (Ok, assign_status INCOMPLETE (after_engine E (assign_status INPROGRESS q))))"
    using a by (simp add: process_unfold)
  show "q_status (snd (process E q)) = INCOMPLETE \<or> q_status (snd (process E q)) = FAILED"
    by (simp add: p assign_status_simps)
  show "events (snd (process E q)) =
      events q @ [StatusAssigned INPROGRESS, StatusAssigned (q_status (snd (process E q)))]"
    by (simp add: p assign_status_simps after_engine_simps)
  show "q_callback_data (snd (process E q)) = q_callback_data q"
    by (simp add: p assign_status_simps after_engine_simps)
next
  assume "q_status q = UNINITIALIZED"
  then show "snd (process E q) = q" by (simp add: process_unfold)
qed

theorem process_callback_witness:
  "q_status (test_query READ INPROGRESS) \<noteq> UNINITIALIZED \<and>
   completes (test_engines Ok False) (test_query READ INPROGRESS) \<and>
   events (snd (process (test_engines Ok False) (test_query READ INPROGRESS))) =
     [StatusAssigned INPROGRESS, CallbackInvoked, StatusAssigned COMPLETED] \<and>
   q_callback_data (snd (process (test_engines Ok False) (test_query READ INPROGRESS))) = 1 \<and>
   \<not> completes (test_engines Ok True) (test_query READ INPROGRESS) \<and>
   events (snd (process (test_engines Ok True) (test_query READ INPROGRESS))) =
     [StatusAssigned INPROGRESS, StatusAssigned INCOMPLETE] \<and>
   q_callback_data (snd (process (test_engines Ok True) (test_query READ INPROGRESS))) = 0"
proof -
  have s: "q_status (test_query READ INPROGRESS) \<noteq> UNINITIALIZED"
    and cb: "q_callback (test_query READ INPROGRESS) = Some Suc"
    and ev: "events (test_query READ INPROGRESS) = []"
    and d: "q_callback_data (test_query READ INPROGRESS) = 0"
    by (simp_all add: test_query_def)
  have c: "completes (test_engines Ok False) (test_query READ INPROGRESS)"
    and n: "\<not> completes (test_engines Ok True) (test_query READ INPROGRESS)"
    by (simp_all add: completes_def engine_status_def ok_def test_defs)
  have st: "q_status (snd (process (test_engines Ok True) (test_query READ INPROGRESS))) = INCOMPLETE"
    using s n by (simp add: process_unfold assign_status_simps engine_status_def ok_def test_defs)
  show ?thesis
    using s cb ev d c n st
      process_callback [of "test_query READ INPROGRESS" "test_engines Ok False"]
      process_callback [of "test_query READ INPROGRESS" "test_engines Ok True"]
    by simp
qed

lemma cancelled_query_simps:
  "q_status cancelled_query = FAILED"
  "q_type cancelled_query = WRITE"
  by (simp_all add: cancelled_query_def cancel_def init_def test_defs assign_status_simps ok_def
      case_prod_beta Let_def)

text \<open>
  Claim C4 says that \<open>process()\<close> and \<open>finalize()\<close> on a \<open>FAILED\<close> query are no-ops that
  return OK and leave the status \<open>FAILED\<close>.  On a write query that was initialised and then
  cancelled, with a writer that succeeds, \<open>process()\<close> runs the writer and ends \<open>COMPLETED\<close>,
  and so does \<open>finalize()\<close>.
\<close>

theorem process_on_failed_counterexample:
  "q_status cancelled_query = FAILED \<and>
   fst (process (test_engines Ok False) cancelled_query) = Ok \<and>
   q_status (snd (process (test_engines Ok False) cancelled_query)) = COMPLETED \<and>
   q_writer (snd (process (test_engines Ok False) cancelled_query)) \<noteq> q_writer cancelled_query \<and>
   fst (finalize (test_engines Ok False) cancelled_query) = Ok \<and>
   q_status (snd (finalize (test_engines Ok False) cancelled_query)) = COMPLETED"
proof -
  have c: "completes (test_engines Ok False) cancelled_query"
    by (simp add: completes_def engine_status_def cancelled_query_simps ok_def test_engines_def
        te_call_def)
  then have e: "ok (engine_status (test_engines Ok False) cancelled_query)"
    by (simp add: completes_def)
  have w: "te_calls (q_writer (snd (process (test_engines Ok False) cancelled_query))) \<noteq>
      te_calls (q_writer cancelled_query)"
    using c e
    by (simp add: process_unfold cancelled_query_simps assign_status_simps after_engine_def
        after_callback_def test_engines_def te_call_def split: option.split)
  have f: "fst (finalize (test_engines Ok False) cancelled_query) = Ok \<and>
      q_status (snd (finalize (test_engines Ok False) cancelled_query)) = COMPLETED"
    by (simp add: finalize_def cancelled_query_simps assign_status_simps ok_def test_engines_def
        te_call_def)
  show ?thesis
    using c e w f
    by (auto simp: process_unfold cancelled_query_simps assign_status_simps)
qed

text \<open>
  Claim C4, amended.  On a \<open>FAILED\<close> query \<open>process()\<close> does what it does on an \<open>INPROGRESS\<close>
  one: it runs the engine and ends \<open>COMPLETED\<close> or \<open>INCOMPLETE\<close> with OK when the engine
  succeeds, and \<open>FAILED\<close> with the engine's error otherwise.  \<open>finalize()\<close> calls the writer's
  \<open>finalize\<close>; it returns OK with status \<open>COMPLETED\<close> when that succeeds, and the writer's
  error with the status still \<open>FAILED\<close> otherwise.
\<close>

theorem process_finalize_on_failed:
  "q_status q = FAILED \<Longrightarrow>
   process E q = process E (q\<lparr>q_status := INPROGRESS\<rparr>) \<and>
   (ok (engine_status E q) \<longrightarrow>
      fst (process E q) = Ok \<and>
      (q_status (snd (process E q)) = COMPLETED \<or> q_status (snd (process E q)) = INCOMPLETE)) \<and>
   (\<not> ok (engine_status E q) \<longrightarrow>
      fst (process E q) = engine_status E q \<and> q_status (snd (process E q)) = FAILED) \<and>
   (ok (fst (writer_finalize E (q_writer q))) \<longrightarrow>
      fst (finalize E q) = Ok \<and> q_status (snd (finalize E q)) = COMPLETED) \<and>
   (\<not> ok (fst (writer_finalize E (q_writer q))) \<longrightarrow>
      fst (finalize E q) = fst (writer_finalize E (q_writer q)) \<and>
      q_status (snd (finalize E q)) = FAILED)"
proof (intro conjI impI)
  assume f: "q_status q = FAILED"
  have "assign_status INPROGRESS (q\<lparr>q_status := INPROGRESS\<rparr>) = assign_status INPROGRESS q"
    by (simp add: assign_status_def)
  moreover have "engine_status E (q\<lparr>q_status := INPROGRESS\<rparr>) = engine_status E q"
    by (simp add: engine_status_def)
  moreover have "completes E (q\<lparr>q_status := INPROGRESS\<rparr>) = completes E q"
    by (simp add: completes_def engine_status_def)
  ultimately show "process E q = process E (q\<lparr>q_status := INPROGRESS\<rparr>)"
    using f by (simp add: process_unfold)
next
  assume "q_status q = FAILED" "ok (engine_status E q)"
  then show "fst (process E q) = Ok"
    and "q_status (snd (process E q)) = COMPLETED \<or> q_status (snd (process E q)) = INCOMPLETE"
    by (simp_all add: process_unfold assign_status_simps)
next
  assume "q_status q = FAILED" "\<not> ok (engine_status E q)"
  then show "fst (process E q) = engine_status E q" and "q_status (snd (process E q)) = FAILED"
    by (simp_all add: process_unfold assign_status_simps)
next
  assume "q_status q = FAILED" "ok (fst (writer_finalize E (q_writer q)))"
  then show "fst (finalize E q) = Ok" and "q_status (snd (finalize E q)) = COMPLETED"
    by (simp_all add: finalize_def assign_status_simps case_prod_beta Let_def)
next
  assume "q_status q = FAILED" "\<not> ok (fst (writer_finalize E (q_writer q)))"
  then show "fst (finalize E q) = fst (writer_finalize E (q_writer q))"
    and "q_status (snd (finalize E q)) = FAILED"
    by (simp_all add: finalize_def assign_status_simps case_prod_beta Let_def)
qed

theorem process_finalize_on_failed_witness:
  "q_status cancelled_query = FAILED \<and>
   ok (engine_status (test_engines Ok False) cancelled_query) \<and>
   fst (process (test_engines Ok False) cancelled_query) = Ok \<and>
   \<not> ok (engine_status (test_engines (WriterError ''io'') False) cancelled_query) \<and>
   q_status (snd (process (test_engines (WriterError ''io'') False) cancelled_query)) = FAILED \<and>
   q_status (snd (finalize (test_engines Ok False) cancelled_query)) = COMPLETED \<and>
   q_status (snd (finalize (test_engines (WriterError ''io'') False) cancelled_query)) = FAILED"
proof -
  have e: "engine_status (test_engines Ok False) cancelled_query = Ok"
    "engine_status (test_engines (WriterError ''io'') False) cancelled_query = WriterError ''io''"
    by (simp_all add: engine_status_def cancelled_query_simps test_engines_def te_call_def)
  have w: "fst (writer_finalize (test_engines Ok False) (q_writer cancelled_query)) = Ok"
    "fst (writer_finalize (test_engines (WriterError ''io'') False) (q_writer cancelled_query)) =
       WriterError ''io''"
    by (simp_all add: test_engines_def te_call_def)
  show ?thesis
    using e w cancelled_query_simps(1)
      process_finalize_on_failed [OF cancelled_query_simps(1), of "test_engines Ok False",
        THEN conjunct2]
      process_finalize_on_failed [OF cancelled_query_simps(1),
        of "test_engines (WriterError ''io'') False", THEN conjunct2]
    by (simp add: ok_def)
qed

section \<open>Properties of setting a subarray\<close>

lemma set_subarray_unfold:
  "set_subarray ndebug E sub q =
     (case check_subarray_bounds ndebug E q sub of
        AssertFailed \<Rightarrow> AssertFailed
      | Undefined \<Rightarrow> Undefined
      | Returns st \<Rightarrow>
          if \<not> ok st then Returns (st, q)
          else if \<not> ok (engine_set_subarray_status E sub q) then
            Returns (engine_set_subarray_status E sub q,
              if q_type q = WRITE then q\<lparr>q_writer := snd (writer_set_subarray E sub (q_writer q))\<rparr>
              else q\<lparr>q_reader := snd (reader_set_subarray E sub (q_reader q))\<rparr>)
          else
            Returns (Ok, assign_status UNINITIALIZED
              (if q_type q = WRITE then q\<lparr>q_writer := snd (writer_set_subarray E sub (q_writer q))\<rparr>
               else q\<lparr>q_reader := snd (reader_set_subarray E sub (q_reader q))\<rparr>)))"
  by (simp add: set_subarray_def engine_set_subarray_status_def case_prod_beta Let_def
      split: outcome.split)

text \<open>
  Claim C3.  When \<open>set_subarray\<close> succeeds the status afterwards is \<open>UNINITIALIZED\<close>, whatever
  it was before; when it fails, the error of the bounds validation or of the engine is
  what it returns, and the status is the one before the call.
\<close>

theorem set_subarray_resets_status:
  "(\<forall>e. check_subarray_bounds ndebug E q sub = Returns e \<and> \<not> ok e \<longrightarrow>
       set_subarray ndebug E sub q = Returns (e, q)) \<and>
   (check_subarray_bounds ndebug E q sub = Returns Ok \<and>
    \<not> ok (engine_set_subarray_status E sub q) \<longrightarrow>
       (\<exists>q'. set_subarray ndebug E sub q = Returns (engine_set_subarray_status E sub q, q') \<and>
             q_status q' = q_status q \<and> events q' = events q)) \<and>
   (check_subarray_bounds ndebug E q sub = Returns Ok \<and>
    ok (engine_set_subarray_status E sub q) \<longrightarrow>
       (\<exists>q'. set_subarray ndebug E sub q = Returns (Ok, q') \<and> q_status q' = UNINITIALIZED)) \<and>
   (\<forall>st q'. set_subarray ndebug E sub q = Returns (st, q') \<longrightarrow>
       (ok st \<longrightarrow> q_status q' = UNINITIALIZED) \<and> (\<not> ok st \<longrightarrow> q_status q' = q_status q))"
proof (intro conjI allI impI)
  fix e
  assume "check_subarray_bounds ndebug E q sub = Returns e \<and> \<not> ok e"
  then show "set_subarray ndebug E sub q = Returns (e, q)"
    by (simp add: set_subarray_unfold)
next
  assume "check_subarray_bounds ndebug E q sub = Returns Ok \<and>
    \<not> ok (engine_set_subarray_status E sub q)"
  then show "\<exists>q'. set_subarray ndebug E sub q = Returns (engine_set_subarray_status E sub q, q') \<and>
             q_status q' = q_status q \<and> events q' = events q"
    by (simp add: set_subarray_unfold ok_def)
next
  assume "check_subarray_bounds ndebug E q sub = Returns Ok \<and>
    ok (engine_set_subarray_status E sub q)"
  then show "\<exists>q'. set_subarray ndebug E sub q = Returns (Ok, q') \<and> q_status q' = UNINITIALIZED"
    by (simp add: set_subarray_unfold ok_def assign_status_simps)
next
  fix st q'
  assume r: "set_subarray ndebug E sub q = Returns (st, q')"
  { assume "ok st"
    with r show "q_status q' = UNINITIALIZED"
      by (auto simp: set_subarray_unfold ok_def assign_status_simps
          split: outcome.splits if_splits) }
  { assume "\<not> ok st"
    with r show "q_status q' = q_status q"
      by (auto simp: set_subarray_unfold ok_def assign_status_simps
          split: outcome.splits if_splits) }
qed

lemmas ex_defs = schema_of_def int32_schema_def int32_0_9_def int32_0_10_def int32_5_3_def
  float64_schema_def float64_nan_nan_def char_schema_def

lemmas eval_defs = check_subarray_bounds_schema_def check_subarray_bounds_T.simps elem_def
  load_le.simps mem_of_def dim_num_def dimension_def Let_def

lemma int32_checks:
  "check_subarray_bounds_schema nd (Some int32_schema) (Some int32_0_9) = Returns Ok"
  "check_subarray_bounds_schema nd (Some int32_schema) (Some int32_0_10) =
     Returns (QueryError ''Subarray out of bounds'')"
  "check_subarray_bounds_schema nd (Some int32_schema) (Some int32_5_3) =
     Returns (QueryError ''Subarray lower bound is larger than upper bound'')"
  by (simp_all add: ex_defs eval_defs word_sless_alt)

lemma array_schema_with_schema:
  "array_schema (test_engines st inc) (with_schema sch (test_query t s)) = Some sch"
  by (simp add: array_schema_def with_schema_def test_defs)

theorem set_subarray_resets_status_witness:
  "check_subarray_bounds True (test_engines Ok False)
      (with_schema int32_schema (test_query WRITE COMPLETED)) (Some int32_0_10) =
     Returns (QueryError ''Subarray out of bounds'') \<and>
   \<not> ok (QueryError ''Subarray out of bounds'') \<and>
   set_subarray True (test_engines Ok False) (Some int32_0_10)
      (with_schema int32_schema (test_query WRITE COMPLETED)) =
     Returns (QueryError ''Subarray out of bounds'',
       with_schema int32_schema (test_query WRITE COMPLETED)) \<and>
   check_subarray_bounds True (test_engines Ok False)
      (with_schema int32_schema (test_query WRITE COMPLETED)) (Some int32_0_9) = Returns Ok \<and>
   ok (engine_set_subarray_status (test_engines Ok False) (Some int32_0_9)
      (with_schema int32_schema (test_query WRITE COMPLETED))) \<and>
   (case set_subarray True (test_engines Ok False) (Some int32_0_9)
           (with_schema int32_schema (test_query WRITE COMPLETED)) of
      Returns (st, q') \<Rightarrow> st = Ok \<and> q_status q' = UNINITIALIZED
    | _ \<Rightarrow> False) \<and>
   \<not> ok (engine_set_subarray_status (test_engines (WriterError ''no'') False) (Some int32_0_9)
      (with_schema int32_schema (test_query WRITE COMPLETED))) \<and>
   (case set_subarray True (test_engines (WriterError ''no'') False) (Some int32_0_9)
           (with_schema int32_schema (test_query WRITE COMPLETED)) of
      Returns (st, q') \<Rightarrow> st = WriterError ''no'' \<and> q_status q' = COMPLETED
    | _ \<Rightarrow> False)"
proof -
  let ?q = "with_schema int32_schema (test_query WRITE COMPLETED)"
  have c: "check_subarray_bounds True (test_engines Ok False) ?q (Some int32_0_10) =
      Returns (QueryError ''Subarray out of bounds'')"
    "check_subarray_bounds True (test_engines Ok False) ?q (Some int32_0_9) = Returns Ok"
    "check_subarray_bounds True (test_engines (WriterError ''no'') False) ?q (Some int32_0_9) =
      Returns Ok"
    by (simp_all add: check_subarray_bounds_def array_schema_with_schema int32_checks)
  have e: "engine_set_subarray_status (test_engines Ok False) (Some int32_0_9) ?q = Ok"
    "engine_set_subarray_status (test_engines (WriterError ''no'') False) (Some int32_0_9) ?q =
       WriterError ''no''"
    by (simp_all add: engine_set_subarray_status_def with_schema_def test_defs)
  have s: "q_status ?q = COMPLETED"
    by (simp add: with_schema_def test_query_def)
  note A = set_subarray_resets_status [of True "test_engines Ok False" ?q "Some int32_0_10"]
  note B = set_subarray_resets_status [of True "test_engines Ok False" ?q "Some int32_0_9"]
  note C = set_subarray_resets_status [of True "test_engines (WriterError ''no'') False" ?q
      "Some int32_0_9"]
  have 1: "set_subarray True (test_engines Ok False) (Some int32_0_10) ?q =
      Returns (QueryError ''Subarray out of bounds'', ?q)"
    using A c(1) by (simp add: ok_def)
  have 2: "case set_subarray True (test_engines Ok False) (Some int32_0_9) ?q of
      Returns (st, q') \<Rightarrow> st = Ok \<and> q_status q' = UNINITIALIZED | _ \<Rightarrow> False"
    using B c(2) e(1) by (auto simp: ok_def)
  have 3: "case set_subarray True (test_engines (WriterError ''no'') False) (Some int32_0_9) ?q of
      Returns (st, q') \<Rightarrow> st = WriterError ''no'' \<and> q_status q' = COMPLETED | _ \<Rightarrow> False"
    using C c(3) e(2) s by (auto simp: ok_def)
  show ?thesis
    using c e 1 2 3 by (simp add: ok_def)
qed

section \<open>Properties of the subarray bounds validation\<close>

text \<open>
  Claim C5 says that on a non-numeric domain type the validation of a non-null subarray
  signals an unsupported-domain-type error.  What the code does there: with \<open>NDEBUG\<close> the
  \<open>assert(false)\<close> is empty and the function returns OK, so the subarray is accepted;
  with assertions compiled in the call stops at the assertion.  No error is returned
  in either build.
\<close>

theorem check_subarray_bounds_non_numeric:
  "array_schema E q = Some schema \<Longrightarrow>
   dom_type (schema_domain schema) \<notin> numeric_types \<Longrightarrow>
   check_subarray_bounds ndebug E q (Some sub) = (if ndebug then Returns Ok else AssertFailed)"
proof -
  assume schema: "array_schema E q = Some schema"
    and other: "dom_type (schema_domain schema) \<notin> numeric_types"
  have "check_subarray_bounds_schema ndebug (Some schema) (Some sub) =
      (if ndebug then Returns Ok else AssertFailed)"
    using other
    by (cases "dom_type (schema_domain schema)")
       (simp_all add: check_subarray_bounds_schema_def numeric_types_def)
  then show ?thesis
    by (simp add: check_subarray_bounds_def schema)
qed

theorem check_subarray_bounds_non_numeric_witness:
  "array_schema (test_engines Ok False) (with_schema char_schema (test_query READ INPROGRESS)) =
     Some char_schema \<and>
   dom_type (schema_domain char_schema) \<notin> numeric_types \<and>
   check_subarray_bounds True (test_engines Ok False)
     (with_schema char_schema (test_query READ INPROGRESS)) (Some (mem_of [0, 9])) = Returns Ok \<and>
   check_subarray_bounds False (test_engines Ok False)
     (with_schema char_schema (test_query READ INPROGRESS)) (Some (mem_of [0, 9])) = AssertFailed"
proof -
  have t: "dom_type (schema_domain char_schema) \<notin> numeric_types"
    by (simp add: char_schema_def schema_of_def numeric_types_def)
  show ?thesis
    using t array_schema_with_schema [of Ok False char_schema READ INPROGRESS]
      check_subarray_bounds_non_numeric [OF array_schema_with_schema t, of True Ok False READ INPROGRESS "mem_of [0, 9]"]
      check_subarray_bounds_non_numeric [OF array_schema_with_schema t, of False Ok False READ INPROGRESS "mem_of [0, 9]"]
    by simp
qed

lemma check_subarray_bounds_T_step:
  assumes "i < dim_num D" "dim_num D \<le> 2 ^ 31"
  shows "check_subarray_bounds_T lt D sub i =
     (if dim_out_of_bounds lt D sub i then SubarrayOutOfBounds
      else if dim_empty_range lt sub i then InvalidSubarrayRange
      else check_subarray_bounds_T lt D sub (i + 1))"
proof -
  have "(2 * i) mod 2 ^ 32 = 2 * i" "(2 * i + 1) mod 2 ^ 32 = 2 * i + 1"
    using assms by simp_all
  then show ?thesis
    using assms(1)
    by (subst check_subarray_bounds_T.simps)
       (simp add: Let_def dim_out_of_bounds_def dim_empty_range_def SubarrayOutOfBounds_def
          InvalidSubarrayRange_def)
qed

lemma check_subarray_bounds_T_skip:
  assumes "dim_num D \<le> 2 ^ 31" "j < dim_num D \<or> j = dim_num D"
    "\<forall>k. i \<le> k \<and> k < j \<longrightarrow> dim_ok lt D sub k" "i \<le> j"
  shows "check_subarray_bounds_T lt D sub i = check_subarray_bounds_T lt D sub j"
  using assms(3,4)
proof (induction "j - i" arbitrary: i)
  case 0
  then show ?case by simp
next
  case (Suc n)
  then have i: "i < j" "i < dim_num D" using assms(2) by auto
  have "dim_ok lt D sub i" using Suc.prems i by simp
  then have "check_subarray_bounds_T lt D sub i = check_subarray_bounds_T lt D sub (i + 1)"
    by (simp add: check_subarray_bounds_T_step [OF i(2) assms(1)] dim_ok_def)
  also have "\<dots> = check_subarray_bounds_T lt D sub j"
    by (rule Suc.hyps(1)) (use Suc i in auto)
  finally show ?case .
qed

lemma check_subarray_bounds_T_end:
  "check_subarray_bounds_T lt D sub (dim_num D) = Ok"
  by (subst check_subarray_bounds_T.simps) simp

lemma check_subarray_bounds_T_Ok_iff:
  assumes "dim_num D \<le> 2 ^ 31"
  shows "check_subarray_bounds_T lt D sub 0 = Ok \<longleftrightarrow> (\<forall>j < dim_num D. dim_ok lt D sub j)"
proof
  assume ok: "check_subarray_bounds_T lt D sub 0 = Ok"
  show "\<forall>j < dim_num D. dim_ok lt D sub j"
  proof (intro allI impI)
    fix j assume j: "j < dim_num D"
    then show "dim_ok lt D sub j"
    proof (induction j rule: less_induct)
      case (less j)
      then have prev: "\<forall>k. 0 \<le> k \<and> k < j \<longrightarrow> dim_ok lt D sub k" by auto
      have "check_subarray_bounds_T lt D sub 0 = check_subarray_bounds_T lt D sub j"
        by (rule check_subarray_bounds_T_skip [OF assms _ prev]) (use less.prems in auto)
      with ok have "check_subarray_bounds_T lt D sub j = Ok" by simp
      then show ?case
        by (auto simp: check_subarray_bounds_T_step [OF less.prems assms] dim_ok_def
            SubarrayOutOfBounds_def InvalidSubarrayRange_def split: if_splits)
    qed
  qed
next
  assume "\<forall>j < dim_num D. dim_ok lt D sub j"
  then have "\<forall>k. 0 \<le> k \<and> k < dim_num D \<longrightarrow> dim_ok lt D sub k" by auto
  then have "check_subarray_bounds_T lt D sub 0 = check_subarray_bounds_T lt D sub (dim_num D)"
    by (intro check_subarray_bounds_T_skip [OF assms]) auto
  then show "check_subarray_bounds_T lt D sub 0 = Ok"
    by (simp add: check_subarray_bounds_T_end)
qed

lemma check_subarray_bounds_T_first_bad:
  assumes "dim_num D \<le> 2 ^ 31" "j < dim_num D" "\<forall>k < j. dim_ok lt D sub k"
  shows "check_subarray_bounds_T lt D sub 0 =
     (if dim_out_of_bounds lt D sub j then SubarrayOutOfBounds
      else if dim_empty_range lt sub j then InvalidSubarrayRange
      else check_subarray_bounds_T lt D sub (j + 1))"
proof -
  have "check_subarray_bounds_T lt D sub 0 = check_subarray_bounds_T lt D sub j"
    by (rule check_subarray_bounds_T_skip [OF assms(1)]) (use assms in auto)
  then show ?thesis
    by (simp add: check_subarray_bounds_T_step [OF assms(2,1)])
qed

lemma dim_ok_signed:
  "dim_ok (word_sless :: 'a::len word \<Rightarrow> _) D sub j \<longleftrightarrow>
   spec_dim_ok (word_sle :: 'a word \<Rightarrow> _) D sub j"
  by (simp add: dim_ok_def dim_out_of_bounds_def dim_empty_range_def spec_dim_ok_def
      signed.not_less)

lemma dim_ok_unsigned:
  "dim_ok ((<) :: 'a::len word \<Rightarrow> _) D sub j \<longleftrightarrow>
   spec_dim_ok ((\<le>) :: 'a word \<Rightarrow> _) D sub j"
  by (simp add: dim_ok_def dim_out_of_bounds_def dim_empty_range_def spec_dim_ok_def not_less)

lemma dim_ok_float:
  "dim_nan_free float_isnan D sub j \<Longrightarrow>
   dim_ok float_less D sub j \<longleftrightarrow> spec_dim_ok float_le D sub j"
  by (simp add: dim_ok_def dim_out_of_bounds_def dim_empty_range_def spec_dim_ok_def
      dim_nan_free_def float_less_def float_le_def not_less)

lemma dim_ok_double:
  "dim_nan_free double_isnan D sub j \<Longrightarrow>
   dim_ok double_less D sub j \<longleftrightarrow> spec_dim_ok double_le D sub j"
  by (simp add: dim_ok_def dim_out_of_bounds_def dim_empty_range_def spec_dim_ok_def
      dim_nan_free_def double_less_def double_le_def not_less)

text \<open>
  The validation on the ten numeric types.  A null subarray is accepted.  A non-null one,
  when no value involved is a NaN, is accepted exactly when every dimension satisfies the
  specification's three inequalities.
\<close>

theorem check_subarray_bounds_numeric:
  assumes "array_schema E q = Some schema"
    and "dom_type (schema_domain schema) \<in> numeric_types"
    and "dim_num (schema_domain schema) \<le> 2 ^ 31"
    and "nan_free (schema_domain schema) sub"
  shows "check_subarray_bounds ndebug E q None = Returns Ok \<and>
    (check_subarray_bounds ndebug E q (Some sub) = Returns Ok \<longleftrightarrow>
       spec_subarray_ok (schema_domain schema) sub)"
proof
  show "check_subarray_bounds ndebug E q None = Returns Ok"
    by (simp add: check_subarray_bounds_def check_subarray_bounds_schema_def)
next
  let ?D = "schema_domain schema"
  note iff = check_subarray_bounds_T_Ok_iff [OF assms(3)]
  show "check_subarray_bounds ndebug E q (Some sub) = Returns Ok \<longleftrightarrow> spec_subarray_ok ?D sub"
  proof (cases "dom_type ?D")
    case FLOAT32
    then have "\<forall>i < dim_num ?D. dim_nan_free float_isnan ?D sub i"
      using assms(4) by (simp add: nan_free_def)
    then have "(\<forall>j < dim_num ?D. dim_ok float_less ?D sub j) \<longleftrightarrow>
        (\<forall>j < dim_num ?D. spec_dim_ok float_le ?D sub j)"
      using dim_ok_float by blast
    then show ?thesis
      using FLOAT32 assms(1)
      by (simp add: check_subarray_bounds_def check_subarray_bounds_schema_def spec_subarray_ok_def
          iff)
  next
    case FLOAT64
    then have "\<forall>i < dim_num ?D. dim_nan_free double_isnan ?D sub i"
      using assms(4) by (simp add: nan_free_def)
    then have "(\<forall>j < dim_num ?D. dim_ok double_less ?D sub j) \<longleftrightarrow>
        (\<forall>j < dim_num ?D. spec_dim_ok double_le ?D sub j)"
      using dim_ok_double by blast
    then show ?thesis
      using FLOAT64 assms(1)
      by (simp add: check_subarray_bounds_def check_subarray_bounds_schema_def spec_subarray_ok_def
          iff)
  qed (use assms(1,2) in \<open>simp_all add: check_subarray_bounds_def check_subarray_bounds_schema_def
        spec_subarray_ok_def iff dim_ok_signed dim_ok_unsigned numeric_types_def\<close>)
qed

lemma check_subarray_bounds_numeric_example:
  "check_subarray_bounds True (test_engines Ok False)
      (with_schema int32_schema (test_query READ UNINITIALIZED)) (Some int32_0_9) = Returns Ok \<and>
   spec_subarray_ok (schema_domain int32_schema) int32_0_9 \<and>
   check_subarray_bounds True (test_engines Ok False)
      (with_schema int32_schema (test_query READ UNINITIALIZED)) (Some int32_0_10) \<noteq> Returns Ok \<and>
   \<not> spec_subarray_ok (schema_domain int32_schema) int32_0_10"
proof -
  let ?E = "test_engines Ok False"
  let ?q = "with_schema int32_schema (test_query READ UNINITIALIZED)"
  have t: "dom_type (schema_domain int32_schema) = INT32"
    and d: "dim_num (schema_domain int32_schema) = 1"
    by (simp_all add: int32_schema_def schema_of_def dim_num_def)
  have n: "dom_type (schema_domain int32_schema) \<in> numeric_types"
    by (simp add: t numeric_types_def)
  have b: "dim_num (schema_domain int32_schema) \<le> 2 ^ 31"
    by (simp add: d)
  have f: "nan_free (schema_domain int32_schema) sub" for sub
    by (simp add: nan_free_def t)
  have c: "check_subarray_bounds True ?E ?q (Some int32_0_9) = Returns Ok"
    "check_subarray_bounds True ?E ?q (Some int32_0_10) \<noteq> Returns Ok"
    by (simp_all add: check_subarray_bounds_def array_schema_with_schema int32_checks)
  show ?thesis
    using c
      check_subarray_bounds_numeric [where ndebug = True and sub = int32_0_9,
        OF array_schema_with_schema [of Ok False int32_schema READ UNINITIALIZED] n b f]
      check_subarray_bounds_numeric [where ndebug = True and sub = int32_0_10,
        OF array_schema_with_schema [of Ok False int32_schema READ UNINITIALIZED] n b f]
    by simp
qed

text \<open>
  The error is decided by the first dimension that fails: a bound outside the
  dimension's domain gives the out-of-bounds error, an empty range inside the domain the
  invalid-range error.
\<close>

theorem check_subarray_bounds_first_failure:
  assumes "array_schema E q = Some schema"
    and "dom_type (schema_domain schema) \<in> numeric_types"
    and "dim_num (schema_domain schema) \<le> 2 ^ 31"
    and "j < dim_num (schema_domain schema)"
    and "\<forall>k < j. \<not> out_of_bounds_at (schema_domain schema) sub k \<and>
                 \<not> empty_range_at (schema_domain schema) sub k"
  shows "(out_of_bounds_at (schema_domain schema) sub j \<longrightarrow>
            check_subarray_bounds ndebug E q (Some sub) = Returns SubarrayOutOfBounds) \<and>
         (\<not> out_of_bounds_at (schema_domain schema) sub j \<and>
          empty_range_at (schema_domain schema) sub j \<longrightarrow>
            check_subarray_bounds ndebug E q (Some sub) = Returns InvalidSubarrayRange)"
proof -
  let ?D = "schema_domain schema"
  note fb = check_subarray_bounds_T_first_bad [OF assms(3,4)]
  show ?thesis
    using assms(1,2,5)
    by (cases "dom_type ?D")
       (simp_all add: check_subarray_bounds_def check_subarray_bounds_schema_def
          out_of_bounds_at_def empty_range_at_def numeric_types_def fb dim_ok_def)
qed

text \<open>
  Claim C1 says that a non-null subarray on a numeric domain is accepted if and only if
  every dimension satisfies \<open>subarray[2i] >= dim_domain[0]\<close>, \<open>subarray[2i+1] <= dim_domain[1]\<close>
  and \<open>subarray[2i] <= subarray[2i+1]\<close>.  On the \<open>FLOAT64\<close> domain \<open>[0.0, 1.0]\<close> the subarray
  whose two values are NaN is accepted, since every \<open><\<close> and \<open>>\<close> on a NaN is false, although
  \<open>NaN >= 0.0\<close> does not hold.
\<close>

theorem check_subarray_bounds_nan:
  "check_subarray_bounds ndebug (test_engines Ok False)
      (with_schema float64_schema (test_query READ UNINITIALIZED)) (Some float64_nan_nan) =
     Returns Ok \<and>
   double_isnan (elem float64_nan_nan 0) \<and>
   \<not> double_le (elem (dim_domain (dimension (schema_domain float64_schema) 0)) 0)
        (elem float64_nan_nan 0)"
proof -
  have c: "check_subarray_bounds_schema ndebug (Some float64_schema) (Some float64_nan_nan) =
      Returns Ok"
    by (simp add: ex_defs eval_defs double_less_def double_isnan_def fp_mag_def double_inf_def)
  have n: "double_isnan (elem float64_nan_nan 0)"
    by (simp add: ex_defs eval_defs double_isnan_def fp_mag_def double_inf_def)
  then have l: "\<not> double_le (elem (dim_domain (dimension (schema_domain float64_schema) 0)) 0)
        (elem float64_nan_nan 0)"
    by (simp add: double_le_def)
  show ?thesis
    using c n l by (simp add: check_subarray_bounds_def array_schema_with_schema)
qed

text \<open>So the specification's condition fails for that subarray.\<close>

lemma float64_nan_nan_not_spec_ok:
  "\<not> spec_subarray_ok (schema_domain float64_schema) float64_nan_nan"
proof -
  have n: "double_isnan (elem float64_nan_nan 0)"
    by (simp add: ex_defs eval_defs double_isnan_def fp_mag_def double_inf_def)
  have t: "dom_type (schema_domain float64_schema) = FLOAT64"
    and d: "dim_num (schema_domain float64_schema) = 1"
    by (simp_all add: float64_schema_def schema_of_def dim_num_def)
  have "\<not> spec_dim_ok double_le (schema_domain float64_schema) float64_nan_nan 0"
    using n by (simp add: spec_dim_ok_def double_le_def)
  then show ?thesis
    by (simp add: spec_subarray_ok_def t d)
qed

section \<open>Properties of the copy from a donor\<close>

lemma copy_buffers_loop_Cons:
  "copy_buffers_loop E ex (nb # rest) q h =
     (case copy_one E ex nb q h of
        Returns (st, q1, h1) \<Rightarrow>
          if st = Ok then copy_buffers_loop E ex rest q1 h1 else Returns (st, q1, h1)
      | AssertFailed \<Rightarrow> AssertFailed
      | Undefined \<Rightarrow> Undefined)"
  by (cases nb)
     (auto simp: copy_one_def Let_def split: option.split prod.split)

lemma copy_one_unfold:
  "copy_one E ex (name, buffer) q h =
     (case ex name of
        Some existing_buffer \<Rightarrow>
          (case (deref h (ab_buffer_size existing_buffer), deref h (ab_buffer_size buffer)) of
             (Some existing_size, Some new_size) \<Rightarrow>
               if existing_size \<noteq> new_size then
                 Returns (QueryError (fixed_size_mismatch existing_size new_size), q, h)
               else
                 (case memcpy (ab_buffer existing_buffer) (ab_buffer buffer) (unat new_size) h of
                    None \<Rightarrow> Undefined
                  | Some h1 \<Rightarrow>
                      (let h2 = free (ab_buffer_size buffer) (free (ab_buffer buffer) h1)
                       in if ab_buffer_var buffer \<noteq> None then
                            (case (deref h2 (ab_buffer_var_size existing_buffer),
                                   deref h2 (ab_buffer_var_size buffer)) of
                               (Some existing_var_size, Some new_var_size) \<Rightarrow>
                                 if existing_var_size \<noteq> new_var_size then
                                   Returns (QueryError
                                     (var_size_mismatch existing_var_size new_var_size), q, h2)
                                 else
                                   (case memcpy (ab_buffer_var existing_buffer) (ab_buffer_var buffer)
                                           (unat new_var_size) h2 of
                                      None \<Rightarrow> Undefined
                                    | Some h3 \<Rightarrow>
                                        Returns (Ok, q,
                                          free (ab_buffer_var_size buffer)
                                             (free (ab_buffer_var buffer) h3)))
                             | _ \<Rightarrow> Undefined)
                          else Returns (Ok, q, h2)))
           | _ \<Rightarrow> Undefined)
      | None \<Rightarrow>
          Returns (Ok,
            if ab_buffer_var buffer \<noteq> None then
              snd (set_buffer_var E name (ab_buffer_var buffer) (ab_buffer_var_size buffer)
                      (ab_buffer buffer) (ab_buffer_size buffer) q)
            else snd (set_buffer E name (ab_buffer buffer) (ab_buffer_size buffer) q), h))"
  by (auto simp: copy_one_def Let_def split: option.split prod.split)

lemma heap_simps:
  "cells (free p h) = cells h"
  "bytes (free p h) = bytes h"
  "deref (free p h) = deref h"
  "memcpy dst src n h = Some h1 \<Longrightarrow> cells h1 = cells h"
  "memcpy dst src n h = Some h1 \<Longrightarrow> deref h1 = deref h"
  by (auto simp: free_def memcpy_def deref_def fun_eq_iff split: option.splits)

lemma memcpy_bytes:
  "memcpy (Some d) (Some s) n h = Some h1 \<Longrightarrow>
   bytes h1 a = (if d \<le> a \<and> a < d + n then bytes h (s + (a - d)) else bytes h a)"
  by (auto simp: memcpy_def)

lemma memcpy_frame:
  "memcpy dst src n h = Some h1 \<Longrightarrow> a \<notin> region dst n \<Longrightarrow> bytes h1 a = bytes h a"
  by (auto simp: memcpy_def region_def split: option.splits)

lemma set_buffer_simps:
  "q_status (snd (set_buffer E n b s q)) = q_status q"
  "events (snd (set_buffer E n b s q)) = events q"
  "q_status (snd (set_buffer_var E n b s v t q)) = q_status q"
  "events (snd (set_buffer_var E n b s v t q)) = events q"
  by (simp_all add: set_buffer_def set_buffer_var_def case_prod_beta)

lemma copy_one_props:
  assumes "copy_one E ex nb q h = Returns (st, q1, h1)"
  shows "cells h1 = cells h"
    and "q_status q1 = q_status q"
    and "events q1 = events q"
    and "st = Ok \<or> is_BufferSizeMismatch st"
    and "a \<notin> touched ex h [nb] \<Longrightarrow> bytes h1 a = bytes h a"
    and "st = Ok \<or> (\<exists>e n. e \<noteq> n \<and> reports_sizes st e n)"
proof -
  obtain name buffer where nb: "nb = (name, buffer)" by (cases nb)
  note r = assms [unfolded nb copy_one_unfold]
  show "cells h1 = cells h"
    using r by (auto simp: Let_def heap_simps split: option.splits if_splits)
  show "q_status q1 = q_status q"
    using r by (auto simp: Let_def set_buffer_simps split: option.splits if_splits)
  show "events q1 = events q"
    using r by (auto simp: Let_def set_buffer_simps split: option.splits if_splits)
  show "st = Ok \<or> is_BufferSizeMismatch st"
    using r
    by (auto simp: Let_def is_BufferSizeMismatch_def fixed_size_mismatch_def var_size_mismatch_def
        split: option.splits if_splits)
  show "bytes h1 a = bytes h a" if "a \<notin> touched ex h [nb]"
    using r that
    by (auto simp: nb Let_def heap_simps size_at_def memcpy_frame split: option.splits if_splits)
  show "st = Ok \<or> (\<exists>e n. e \<noteq> n \<and> reports_sizes st e n)"
    using r
    by (auto simp: Let_def reports_sizes_def split: option.splits if_splits)
qed

lemma copy_buffers_loop_append:
  "copy_buffers_loop E ex (pre @ xs) q h =
     (case copy_buffers_loop E ex pre q h of
        Returns (st, q1, h1) \<Rightarrow>
          if st = Ok then copy_buffers_loop E ex xs q1 h1 else Returns (st, q1, h1)
      | AssertFailed \<Rightarrow> AssertFailed
      | Undefined \<Rightarrow> Undefined)"
proof (induction pre arbitrary: q h)
  case Nil
  show ?case by simp
next
  case (Cons nb pre)
  show ?case
    by (simp only: append_Cons copy_buffers_loop_Cons [of E ex nb] Cons.IH)
       (simp split: outcome.split prod.split)
qed

lemma touched_cells:
  "cells h1 = cells h \<Longrightarrow> touched ex h1 xs = touched ex h xs"
  by (induction xs) (auto simp: size_at_def deref_def split: option.splits)

lemma touched_Cons:
  "touched ex h (nb # rest) = touched ex h [nb] \<union> touched ex h rest"
  by (cases nb) simp

lemma copy_buffers_loop_props:
  assumes "copy_buffers_loop E ex xs q h = Returns (st, q1, h1)"
  shows "cells h1 = cells h \<and> q_status q1 = q_status q \<and> events q1 = events q \<and>
         (st = Ok \<or> is_BufferSizeMismatch st) \<and>
         (\<forall>a. a \<notin> touched ex h xs \<longrightarrow> bytes h1 a = bytes h a) \<and>
         (st = Ok \<or> (\<exists>e n. e \<noteq> n \<and> reports_sizes st e n))"
  using assms
proof (induction xs arbitrary: q h)
  case Nil
  then show ?case by simp
next
  case (Cons nb rest)
  from Cons.prems obtain st' q' h' where one: "copy_one E ex nb q h = Returns (st', q', h')"
    by (auto simp: copy_buffers_loop_Cons [of E ex nb] split: outcome.splits)
  note p = copy_one_props [OF one]
  show ?case
  proof (cases "st' = Ok")
    case True
    then have "copy_buffers_loop E ex rest q' h' = Returns (st, q1, h1)"
      using Cons.prems one by (simp add: copy_buffers_loop_Cons [of E ex nb])
    from Cons.IH [OF this] have ih: "cells h1 = cells h'" "q_status q1 = q_status q'"
      "events q1 = events q'" "st = Ok \<or> is_BufferSizeMismatch st"
      "\<forall>a. a \<notin> touched ex h' rest \<longrightarrow> bytes h1 a = bytes h' a"
      "st = Ok \<or> (\<exists>e n. e \<noteq> n \<and> reports_sizes st e n)"
      by simp_all
    have t: "touched ex h' rest = touched ex h rest"
      by (rule touched_cells) (rule p(1))
    have "\<forall>a. a \<notin> touched ex h (nb # rest) \<longrightarrow> bytes h1 a = bytes h a"
      using ih(5) p(5) t by (simp add: touched_Cons [of ex h nb rest])
    then show ?thesis using ih p by simp
  next
    case False
    then have "st = st'" "q1 = q'" "h1 = h'"
      using Cons.prems one by (simp_all add: copy_buffers_loop_Cons [of E ex nb])
    then show ?thesis
      using p False by (simp add: touched_Cons [of ex h nb rest])
  qed
qed

declare copy_buffers_loop.simps(2) [simp del]

lemma sublist_mismatch:
  "sublist (to_string (unat e)) (fixed_size_mismatch e n)"
  "sublist (to_string (unat n)) (fixed_size_mismatch e n)"
  "sublist (to_string (unat e)) (var_size_mismatch e n)"
  "sublist (to_string (unat n)) (var_size_mismatch e n)"
proof -
  have mid: "sublist xs (a @ xs @ b)" for xs a b :: string
    by (rule sublist_appendI)
  have late: "sublist xs (a @ b @ c @ xs @ d)" for xs a b c d :: string
    using sublist_appendI [of xs "a @ b @ c" d] by simp
  show "sublist (to_string (unat e)) (fixed_size_mismatch e n)"
    unfolding fixed_size_mismatch_def by (rule mid)
  show "sublist (to_string (unat n)) (fixed_size_mismatch e n)"
    unfolding fixed_size_mismatch_def by (rule late)
  show "sublist (to_string (unat e)) (var_size_mismatch e n)"
    unfolding var_size_mismatch_def by (rule mid)
  show "sublist (to_string (unat n)) (var_size_mismatch e n)"
    unfolding var_size_mismatch_def by (rule late)
qed

lemma copy_one_fixed_mismatch:
  assumes "ex name = Some existing_buffer"
    and "deref h (ab_buffer_size existing_buffer) = Some existing_size"
    and "deref h (ab_buffer_size buffer) = Some new_size"
    and "existing_size \<noteq> new_size"
  shows "copy_one E ex (name, buffer) q h =
     Returns (QueryError (fixed_size_mismatch existing_size new_size), q, h)"
  using assms by (simp add: copy_one_unfold)

text \<open>
  Claim C6, amended.  Let an attribute be held by the donor and by the receiver with
  different fixed buffer sizes.  When the buffers before it in the donor's iteration order
  were copied without error, and so when it comes first, the call returns the
  size-mismatch error whose message holds both of its sizes, and its round changes
  nothing: the query and the heap are the ones the earlier buffers left.  In every case a
  call that returns returns a size-mismatch error that reports two different sizes, every
  byte outside the receiver's buffers of the earlier attributes is what it was before the
  call, and so is the receiver's payload for this attribute when none of those buffers
  overlaps it.
\<close>

theorem copy_buffers_fixed_size_mismatch:
  assumes "attribute_buffers E query = pre @ (name, buffer) # rest"
    and "map_of (attribute_buffers E q) name = Some existing_buffer"
    and "deref h (ab_buffer_size existing_buffer) = Some existing_size"
    and "deref h (ab_buffer_size buffer) = Some new_size"
    and "existing_size \<noteq> new_size"
  shows "(\<forall>q1 h1. copy_buffers_loop E (map_of (attribute_buffers E q)) pre q h = Returns (Ok, q1, h1) \<longrightarrow>
            copy_buffers E query q h =
              Returns (QueryError (fixed_size_mismatch existing_size new_size), q1, h1)) \<and>
         (pre = [] \<longrightarrow>
            copy_buffers E query q h =
              Returns (QueryError (fixed_size_mismatch existing_size new_size), q, h)) \<and>
         sublist (to_string (unat existing_size)) (fixed_size_mismatch existing_size new_size) \<and>
         sublist (to_string (unat new_size)) (fixed_size_mismatch existing_size new_size) \<and>
         (\<forall>st q' h'. copy_buffers E query q h = Returns (st, q', h') \<longrightarrow>
            is_BufferSizeMismatch st \<and>
            (\<exists>e n. e \<noteq> n \<and> reports_sizes st e n) \<and>
            (\<forall>a. a \<notin> touched (map_of (attribute_buffers E q)) h pre \<longrightarrow> bytes h' a = bytes h a)) \<and>
         (region (ab_buffer existing_buffer) (unat existing_size) \<inter>
            touched (map_of (attribute_buffers E q)) h pre = {} \<longrightarrow>
            (\<forall>st q' h' a. copy_buffers E query q h = Returns (st, q', h') \<and>
               a \<in> region (ab_buffer existing_buffer) (unat existing_size) \<longrightarrow>
               bytes h' a = bytes h a))"
proof -
  let ?ex = "map_of (attribute_buffers E q)"
  let ?err = "QueryError (fixed_size_mismatch existing_size new_size)"
  have cb: "copy_buffers E query q h = copy_buffers_loop E ?ex (pre @ (name, buffer) # rest) q h"
    by (simp add: copy_buffers_def assms(1))
  have reach: "copy_buffers_loop E ?ex ((name, buffer) # rest) q1 h1 = Returns (?err, q1, h1)"
    if "cells h1 = cells h" for q1 :: "('a, 'b, 'c) Query" and h1
  proof -
    have "deref h1 = deref h" using that by (simp add: deref_def fun_eq_iff split: option.splits)
    then have "copy_one E ?ex (name, buffer) q1 h1 = Returns (?err, q1, h1)"
      using assms(2-5) by (intro copy_one_fixed_mismatch) simp_all
    then show ?thesis
      by (simp add: copy_buffers_loop_Cons [of E ?ex "(name, buffer)"])
  qed
  have a: "copy_buffers E query q h = Returns (?err, q1, h1)"
    if "copy_buffers_loop E ?ex pre q h = Returns (Ok, q1, h1)" for q1 h1
  proof -
    have "cells h1 = cells h" using copy_buffers_loop_props [OF that] by simp
    then show ?thesis using that reach by (simp add: cb copy_buffers_loop_append)
  qed
  have b: "pre = [] \<Longrightarrow> copy_buffers E query q h = Returns (?err, q, h)"
    using a by simp
  have c: "is_BufferSizeMismatch st \<and> (\<exists>e n. e \<noteq> n \<and> reports_sizes st e n) \<and>
      (\<forall>a. a \<notin> touched ?ex h pre \<longrightarrow> bytes h' a = bytes h a)"
    if r: "copy_buffers E query q h = Returns (st, q', h')" for st q' h'
  proof -
    from r obtain st1 q1 h1 where p: "copy_buffers_loop E ?ex pre q h = Returns (st1, q1, h1)"
      by (auto simp: cb copy_buffers_loop_append split: outcome.splits)
    note props = copy_buffers_loop_props [OF p]
    show ?thesis
    proof (cases "st1 = Ok")
      case True
      then have "copy_buffers E query q h = Returns (?err, q1, h1)" using a p by simp
      then have "st = ?err" "h' = h1" using r by simp_all
      moreover have "reports_sizes ?err existing_size new_size"
        by (simp add: reports_sizes_def)
      ultimately show ?thesis
        using props assms(5)
        by (auto simp: is_BufferSizeMismatch_def fixed_size_mismatch_def)
    next
      case False
      then have "st = st1" "h' = h1" using r p by (simp_all add: cb copy_buffers_loop_append)
      then show ?thesis using props False by simp
    qed
  qed
  have d: "bytes h' a = bytes h a"
    if "region (ab_buffer existing_buffer) (unat existing_size) \<inter> touched ?ex h pre = {}"
      and "copy_buffers E query q h = Returns (st, q', h')"
      and "a \<in> region (ab_buffer existing_buffer) (unat existing_size)" for st q' h' a
  proof -
    have "a \<notin> touched ?ex h pre" using that(1,3) by blast
    then show ?thesis using c [OF that(2)] by blast
  qed
  have abc: "(\<forall>q1 h1. copy_buffers_loop E ?ex pre q h = Returns (Ok, q1, h1) \<longrightarrow>
            copy_buffers E query q h = Returns (?err, q1, h1)) \<and>
         (pre = [] \<longrightarrow> copy_buffers E query q h = Returns (?err, q, h)) \<and>
         sublist (to_string (unat existing_size)) (fixed_size_mismatch existing_size new_size) \<and>
         sublist (to_string (unat new_size)) (fixed_size_mismatch existing_size new_size) \<and>
         (\<forall>st q' h'. copy_buffers E query q h = Returns (st, q', h') \<longrightarrow>
            is_BufferSizeMismatch st \<and>
            (\<exists>e n. e \<noteq> n \<and> reports_sizes st e n) \<and>
            (\<forall>a. a \<notin> touched ?ex h pre \<longrightarrow> bytes h' a = bytes h a))"
    using a b c sublist_mismatch(1,2) by blast
  have own: "region (ab_buffer existing_buffer) (unat existing_size) \<inter> touched ?ex h pre = {} \<longrightarrow>
            (\<forall>st q' h' a. copy_buffers E query q h = Returns (st, q', h') \<and>
               a \<in> region (ab_buffer existing_buffer) (unat existing_size) \<longrightarrow>
               bytes h' a = bytes h a)"
    using d by blast
  show ?thesis
    using abc own by (intro conjI) blast+
qed

lemmas copy_ex_defs = test_heap_def recv_a_def donor_a_def recv_v_def donor_v_def with_buffers_def

lemma attribute_buffers_with_buffers:
  "attribute_buffers (test_engines st inc) (with_buffers bufs (test_query t s)) = bufs"
  by (simp add: attribute_buffers_def with_buffers_def test_defs)

theorem copy_buffers_fixed_size_mismatch_witness:
  "attribute_buffers (test_engines Ok False)
      (with_buffers [(''a'', donor_a)] (test_query READ COMPLETED)) = [] @ (''a'', donor_a) # [] \<and>
   map_of (attribute_buffers (test_engines Ok False)
      (with_buffers [(''a'', recv_a)] (test_query READ INPROGRESS))) ''a'' = Some recv_a \<and>
   deref test_heap (ab_buffer_size recv_a) = Some 40 \<and>
   deref test_heap (ab_buffer_size donor_a) = Some 48 \<and>
   copy_buffers (test_engines Ok False)
      (with_buffers [(''a'', donor_a)] (test_query READ COMPLETED))
      (with_buffers [(''a'', recv_a)] (test_query READ INPROGRESS)) test_heap =
     Returns (QueryError
       ''Existing buffer in query object is different size (40) vs new query object buffer size (48)'',
       with_buffers [(''a'', recv_a)] (test_query READ INPROGRESS), test_heap)"
proof -
  let ?E = "test_engines Ok False"
  let ?donor = "with_buffers [(''a'', donor_a)] (test_query READ COMPLETED)"
  let ?recv = "with_buffers [(''a'', recv_a)] (test_query READ INPROGRESS)"
  have 1: "attribute_buffers ?E ?donor = [] @ (''a'', donor_a) # []"
    by (simp add: attribute_buffers_with_buffers)
  have 2: "map_of (attribute_buffers ?E ?recv) ''a'' = Some recv_a"
    by (simp add: attribute_buffers_with_buffers)
  have 3: "deref test_heap (ab_buffer_size recv_a) = Some 40"
    by (simp add: deref_def copy_ex_defs)
  have 4: "deref test_heap (ab_buffer_size donor_a) = Some 48"
    by (simp add: deref_def copy_ex_defs)
  have 5: "(40 :: 64 word) \<noteq> 48" by simp
  have m: "fixed_size_mismatch 40 48 =
      ''Existing buffer in query object is different size (40) vs new query object buffer size (48)''"
    by (simp add: fixed_size_mismatch_def to_string.simps digit_char_def)
  have "[] = ([] :: (string \<times> AttributeBuffer) list) \<longrightarrow>
      copy_buffers ?E ?donor ?recv test_heap =
        Returns (QueryError (fixed_size_mismatch 40 48), ?recv, test_heap)"
    using copy_buffers_fixed_size_mismatch [OF 1 2 3 4 5] by blast
  then show ?thesis
    using 1 2 3 4 m by simp
qed

text \<open>
  Claim C6 says that for every attribute held by both with different fixed sizes the call
  fails with a message that contains both sizes.  With the donor holding \<open>a\<close> (48 bytes
  against the receiver's 40) and then \<open>b\<close> (12 against 10), the loop stops at \<open>a\<close>: the
  message holds 40 and 48, and neither size of \<open>b\<close>.
\<close>

theorem copy_buffers_second_mismatch_counterexample:
  "attribute_buffers (test_engines Ok False)
      (with_buffers [(''a'', donor_a), (''b'', donor_b)] (test_query READ COMPLETED)) =
     [(''a'', donor_a)] @ (''b'', donor_b) # [] \<and>
   map_of (attribute_buffers (test_engines Ok False)
      (with_buffers [(''a'', recv_a), (''b'', recv_b)] (test_query READ INPROGRESS))) ''b'' =
     Some recv_b \<and>
   deref test_heap (ab_buffer_size recv_b) = Some 10 \<and>
   deref test_heap (ab_buffer_size donor_b) = Some 12 \<and>
   (10 :: 64 word) \<noteq> 12 \<and>
   copy_buffers (test_engines Ok False)
      (with_buffers [(''a'', donor_a), (''b'', donor_b)] (test_query READ COMPLETED))
      (with_buffers [(''a'', recv_a), (''b'', recv_b)] (test_query READ INPROGRESS)) test_heap =
     Returns (QueryError
       ''Existing buffer in query object is different size (40) vs new query object buffer size (48)'',
       with_buffers [(''a'', recv_a), (''b'', recv_b)] (test_query READ INPROGRESS), test_heap) \<and>
   \<not> sublist (to_string (unat (10 :: 64 word)))
     ''Existing buffer in query object is different size (40) vs new query object buffer size (48)'' \<and>
   \<not> sublist (to_string (unat (12 :: 64 word)))
     ''Existing buffer in query object is different size (40) vs new query object buffer size (48)''"
proof -
  let ?E = "test_engines Ok False"
  let ?donor = "with_buffers [(''a'', donor_a), (''b'', donor_b)] (test_query READ COMPLETED)"
  let ?recv = "with_buffers [(''a'', recv_a), (''b'', recv_b)] (test_query READ INPROGRESS)"
  let ?ex = "map_of (attribute_buffers ?E ?recv)"
  have 1: "attribute_buffers ?E ?donor = [(''a'', donor_a)] @ (''b'', donor_b) # []"
    by (simp add: attribute_buffers_with_buffers)
  have 2: "?ex ''b'' = Some recv_b" and ea: "?ex ''a'' = Some recv_a"
    by (simp_all add: attribute_buffers_with_buffers)
  have 3: "deref test_heap (ab_buffer_size recv_b) = Some 10"
    and 4: "deref test_heap (ab_buffer_size donor_b) = Some 12"
    and 5: "deref test_heap (ab_buffer_size recv_a) = Some 40"
    and 6: "deref test_heap (ab_buffer_size donor_a) = Some 48"
    by (simp_all add: deref_def test_heap_def recv_a_def donor_a_def recv_b_def donor_b_def)
  have m: "fixed_size_mismatch 40 48 =
      ''Existing buffer in query object is different size (40) vs new query object buffer size (48)''"
    by (simp add: fixed_size_mismatch_def to_string.simps digit_char_def)
  have "copy_one ?E ?ex (''a'', donor_a) ?recv test_heap =
      Returns (QueryError (fixed_size_mismatch 40 48), ?recv, test_heap)"
    by (rule copy_one_fixed_mismatch [where existing_buffer = recv_a]) (simp_all add: ea 5 6)
  then have r: "copy_buffers ?E ?donor ?recv test_heap =
      Returns (QueryError (fixed_size_mismatch 40 48), ?recv, test_heap)"
    by (simp add: copy_buffers_def attribute_buffers_with_buffers copy_buffers_loop_Cons)
  have t: "to_string (unat (10 :: 64 word)) = ''10''" "to_string (unat (12 :: 64 word)) = ''12''"
    by (simp_all add: to_string.simps digit_char_def)
  have n: "\<not> sublist ''10''
      ''Existing buffer in query object is different size (40) vs new query object buffer size (48)''"
    "\<not> sublist ''12''
      ''Existing buffer in query object is different size (40) vs new query object buffer size (48)''"
    by (simp_all add: sublist_Cons_right)
  have d: "(10 :: 64 word) \<noteq> 12" by simp
  show ?thesis
    unfolding t using 1 2 3 4 d r [unfolded m] n by blast
qed

text \<open>
  Claim C10.  Let a variable-length attribute be held by the donor and by the receiver
  with equal fixed sizes and different values sizes.  When the loop of \<open>copy_buffers\<close>
  reaches it, the call returns the size-mismatch error of the values buffers, and in the
  heap it returns the receiver's fixed payload already holds the donor's bytes; nothing
  else has changed in that round.
\<close>

theorem copy_buffers_var_size_mismatch:
  assumes "attribute_buffers E query = pre @ (name, buffer) # rest"
    and "map_of (attribute_buffers E q) name = Some existing_buffer"
    and "deref h (ab_buffer_size existing_buffer) = Some fixed_size"
    and "deref h (ab_buffer_size buffer) = Some fixed_size"
    and "ab_buffer existing_buffer = Some dst"
    and "ab_buffer buffer = Some src"
    and "ab_buffer_var buffer \<noteq> None"
    and "deref h (ab_buffer_var_size existing_buffer) = Some existing_var_size"
    and "deref h (ab_buffer_var_size buffer) = Some new_var_size"
    and "existing_var_size \<noteq> new_var_size"
    and "copy_buffers_loop E (map_of (attribute_buffers E q)) pre q h = Returns (Ok, q1, h1)"
  shows "\<exists>h'. copy_buffers E query q h =
               Returns (QueryError (var_size_mismatch existing_var_size new_var_size), q1, h') \<and>
             (\<forall>j < unat fixed_size. bytes h' (dst + j) = bytes h1 (src + j)) \<and>
             (\<forall>a. a \<notin> region (Some dst) (unat fixed_size) \<longrightarrow> bytes h' a = bytes h1 a) \<and>
             cells h' = cells h1"
proof -
  let ?ex = "map_of (attribute_buffers E q)"
  let ?err = "QueryError (var_size_mismatch existing_var_size new_var_size)"
  have cb: "copy_buffers E query q h = copy_buffers_loop E ?ex ((name, buffer) # rest) q1 h1"
    using assms(11) by (simp add: copy_buffers_def assms(1) copy_buffers_loop_append)
  have "cells h1 = cells h" using copy_buffers_loop_props [OF assms(11)] by simp
  then have d: "deref h1 = deref h" by (simp add: deref_def fun_eq_iff split: option.splits)
  obtain hm where hm: "memcpy (Some dst) (Some src) (unat fixed_size) h1 = Some hm"
    by (simp add: memcpy_def)
  let ?h' = "free (ab_buffer_size buffer) (free (ab_buffer buffer) hm)"
  have d': "deref ?h' = deref h" using hm d by (simp add: heap_simps)
  have one: "copy_one E ?ex (name, buffer) q1 h1 = Returns (?err, q1, ?h')"
    using assms(2-10) hm by (simp add: copy_one_unfold Let_def heap_simps(3) heap_simps(5) [OF hm] d)
  have r: "copy_buffers E query q h = Returns (?err, q1, ?h')"
    by (simp add: cb copy_buffers_loop_Cons [of E ?ex "(name, buffer)"] one)
  have b: "\<forall>j < unat fixed_size. bytes ?h' (dst + j) = bytes h1 (src + j)"
    using memcpy_bytes [OF hm] by (simp add: heap_simps)
  have f: "\<forall>a. a \<notin> region (Some dst) (unat fixed_size) \<longrightarrow> bytes ?h' a = bytes h1 a"
    using memcpy_frame [OF hm] by (simp add: heap_simps)
  have c: "cells ?h' = cells h1" using hm by (simp add: heap_simps)
  show ?thesis using r b f c by blast
qed

theorem copy_buffers_var_size_mismatch_witness:
  "(case copy_buffers (test_engines Ok False)
           (with_buffers [(''v'', donor_v)] (test_query READ COMPLETED))
           (with_buffers [(''v'', recv_v)] (test_query READ INPROGRESS)) test_heap of
      Returns (st, q', h') \<Rightarrow>
        st = QueryError
          ''Existing buffer_var_ in query object is different size (10) vs new query object buffer_var size (12)'' \<and>
        bytes h' 1100 = 7 \<and> bytes h' 1107 = 7 \<and> bytes h' 1108 = 0
    | _ \<Rightarrow> False) \<and>
   bytes test_heap 1100 = 0 \<and> bytes test_heap 1107 = 0 \<and> bytes test_heap 2100 = 7"
proof -
  let ?E = "test_engines Ok False"
  let ?donor = "with_buffers [(''v'', donor_v)] (test_query READ COMPLETED)"
  let ?recv = "with_buffers [(''v'', recv_v)] (test_query READ INPROGRESS)"
  have 1: "attribute_buffers ?E ?donor = [] @ (''v'', donor_v) # []"
    by (simp add: attribute_buffers_with_buffers)
  have 2: "map_of (attribute_buffers ?E ?recv) ''v'' = Some recv_v"
    by (simp add: attribute_buffers_with_buffers)
  have 3: "deref test_heap (ab_buffer_size recv_v) = Some 8"
    and 4: "deref test_heap (ab_buffer_size donor_v) = Some 8"
    and 5: "ab_buffer recv_v = Some 1100"
    and 6: "ab_buffer donor_v = Some 2100"
    and 7: "ab_buffer_var donor_v \<noteq> None"
    and 8: "deref test_heap (ab_buffer_var_size recv_v) = Some 10"
    and 9: "deref test_heap (ab_buffer_var_size donor_v) = Some 12"
    by (simp_all add: deref_def copy_ex_defs)
  have 10: "(10 :: 64 word) \<noteq> 12" by simp
  have 11: "copy_buffers_loop ?E (map_of (attribute_buffers ?E ?recv)) [] ?recv test_heap =
      Returns (Ok, ?recv, test_heap)"
    by simp
  have m: "var_size_mismatch 10 12 =
      ''Existing buffer_var_ in query object is different size (10) vs new query object buffer_var size (12)''"
    by (simp add: var_size_mismatch_def to_string.simps digit_char_def)
  have b: "bytes test_heap 1100 = 0" "bytes test_heap 1107 = 0" "bytes test_heap 1108 = 0"
    "bytes test_heap 2100 = 7" "bytes test_heap 2107 = 7"
    by (simp_all add: test_heap_def)
  from copy_buffers_var_size_mismatch [OF 1 2 3 4 5 6 7 8 9 10 11]
  obtain h' where r: "copy_buffers ?E ?donor ?recv test_heap =
      Returns (QueryError (var_size_mismatch 10 12), ?recv, h')"
    and c: "\<forall>j < unat (8 :: 64 word). bytes h' (1100 + j) = bytes test_heap (2100 + j)"
    and f: "\<forall>a. a \<notin> region (Some 1100) (unat (8 :: 64 word)) \<longrightarrow> bytes h' a = bytes test_heap a"
    by blast
  have "bytes h' (1100 + 0) = bytes test_heap (2100 + 0)" using c by (intro c [rule_format]) simp
  then have x: "bytes h' 1100 = 7" using b by simp
  have "bytes h' (1100 + 7) = bytes test_heap (2100 + 7)" by (intro c [rule_format]) simp
  then have y: "bytes h' 1107 = 7" using b by simp
  have "(1108 :: nat) \<notin> region (Some 1100) (unat (8 :: 64 word))" by (simp add: region_def)
  then have z: "bytes h' 1108 = 0" using f b by simp
  show ?thesis using r m x y z b by simp
qed

lemma copy_json_wip_numeric:
  assumes "array_schema E (receiver_at_switch E query q) = Some schema"
    and "dom_type (schema_domain schema) \<in> numeric_types"
  shows "copy_json_wip ndebug E query q h =
     (case set_subarray ndebug E (subarray E query) (receiver_at_switch E query q) of
        Returns (st, q4) \<Rightarrow> copy_buffers E query q4 h
      | AssertFailed \<Rightarrow> AssertFailed
      | Undefined \<Rightarrow> Undefined)"
  using assms
  by (cases "dom_type (schema_domain schema)")
     (simp_all add: copy_json_wip_def receiver_at_switch_def Let_def numeric_types_def)

lemma receiver_at_switch_simps:
  "q_status (receiver_at_switch E query q) = q_status query"
  "events (receiver_at_switch E query q) = events q @ [StatusAssigned (q_status query)]"
  "q_type (receiver_at_switch E query q) = q_type query"
  by (simp_all add: receiver_at_switch_def set_layout_def assign_status_def case_prod_beta Let_def)

lemma copy_buffers_props:
  assumes "copy_buffers E query q h = Returns (st, q', h')"
  shows "q_status q' = q_status q" "events q' = events q"
  using copy_buffers_loop_props [OF assms [unfolded copy_buffers_def Let_def]] by simp_all

text \<open>
  Claim C8, amended.  On a numeric domain, when the donor's subarray passes the bounds
  validation: the \<open>Status\<close> of \<open>set_subarray\<close> is dropped, the call going on to
  \<open>copy_buffers\<close> with the query \<open>set_subarray\<close> left; when the receiver's engine accepts the
  subarray, a call that returns leaves the status \<open>UNINITIALIZED\<close>, the donor's status
  assigned at entry having been overwritten by the reset; when the engine rejects it, the
  status is left as the donor's.
\<close>

theorem copy_json_wip_status:
  assumes "array_schema E (receiver_at_switch E query q) = Some schema"
    and "dom_type (schema_domain schema) \<in> numeric_types"
    and "check_subarray_bounds ndebug E (receiver_at_switch E query q) (subarray E query) = Returns Ok"
  shows "(\<forall>st4 q4. set_subarray ndebug E (subarray E query) (receiver_at_switch E query q) =
            Returns (st4, q4) \<longrightarrow>
            copy_json_wip ndebug E query q h = copy_buffers E query q4 h) \<and>
         (ok (engine_set_subarray_status E (subarray E query) (receiver_at_switch E query q)) \<longrightarrow>
            (\<forall>st q' h'. copy_json_wip ndebug E query q h = Returns (st, q', h') \<longrightarrow>
               q_status q' = UNINITIALIZED \<and>
               events q' =
                 events q @ [StatusAssigned (q_status query), StatusAssigned UNINITIALIZED])) \<and>
         (\<not> ok (engine_set_subarray_status E (subarray E query) (receiver_at_switch E query q)) \<longrightarrow>
            (\<forall>st q' h'. copy_json_wip ndebug E query q h = Returns (st, q', h') \<longrightarrow>
               q_status q' = q_status query))"
proof (intro conjI allI impI)
  fix st4 q4
  assume "set_subarray ndebug E (subarray E query) (receiver_at_switch E query q) = Returns (st4, q4)"
  then show "copy_json_wip ndebug E query q h = copy_buffers E query q4 h"
    by (simp add: copy_json_wip_numeric [OF assms(1,2)])
next
  fix st q' h'
  assume e: "ok (engine_set_subarray_status E (subarray E query) (receiver_at_switch E query q))"
    and r: "copy_json_wip ndebug E query q h = Returns (st, q', h')"
  let ?q3 = "receiver_at_switch E query q"
  obtain q4 where s: "set_subarray ndebug E (subarray E query) ?q3 = Returns (Ok, q4)"
    and q4: "q_status q4 = UNINITIALIZED"
      "events q4 = events ?q3 @ [StatusAssigned UNINITIALIZED]"
    using assms(3) e
    by (simp add: set_subarray_unfold ok_def assign_status_simps)
  from r s have "copy_buffers E query q4 h = Returns (st, q', h')"
    by (simp add: copy_json_wip_numeric [OF assms(1,2)])
  from copy_buffers_props [OF this] q4
  show "q_status q' = UNINITIALIZED"
    and "events q' = events q @ [StatusAssigned (q_status query), StatusAssigned UNINITIALIZED]"
    by (simp_all add: receiver_at_switch_simps)
next
  fix st q' h'
  assume e: "\<not> ok (engine_set_subarray_status E (subarray E query) (receiver_at_switch E query q))"
    and r: "copy_json_wip ndebug E query q h = Returns (st, q', h')"
  let ?q3 = "receiver_at_switch E query q"
  obtain st4 q4 where s: "set_subarray ndebug E (subarray E query) ?q3 = Returns (st4, q4)"
    and q4: "q_status q4 = q_status ?q3"
    using assms(3) e
    by (simp add: set_subarray_unfold ok_def)
  from r s have "copy_buffers E query q4 h = Returns (st, q', h')"
    by (simp add: copy_json_wip_numeric [OF assms(1,2)])
  from copy_buffers_props [OF this] q4
  show "q_status q' = q_status query"
    by (simp add: receiver_at_switch_simps)
qed

lemmas wip_defs = donor_query_def receiver_query_def with_subarray_def with_schema_def

lemma wip_example:
  "array_schema (test_engines st inc) (receiver_at_switch (test_engines st inc) donor_query receiver_query) =
     Some int32_schema"
  "subarray (test_engines st inc) donor_query = Some int32_0_9"
  "q_status donor_query = COMPLETED"
  "q_status receiver_query = INPROGRESS"
  "events receiver_query = []"
  "engine_set_subarray_status (test_engines st inc) sub
     (receiver_at_switch (test_engines st inc) donor_query receiver_query) = st"
  "attribute_buffers (test_engines st inc) donor_query = []"
  by (simp_all add: array_schema_def subarray_def receiver_at_switch_def set_layout_def
      engine_set_subarray_status_def attribute_buffers_def
      assign_status_def wip_defs test_defs)

lemma wip_example_check:
  "check_subarray_bounds nd (test_engines st inc)
     (receiver_at_switch (test_engines st inc) donor_query receiver_query)
     (subarray (test_engines st inc) donor_query) = Returns Ok"
  by (simp add: check_subarray_bounds_def wip_example int32_checks)

lemma wip_example_numeric: "dom_type (schema_domain int32_schema) \<in> numeric_types"
  by (simp add: int32_schema_def schema_of_def numeric_types_def)

lemma wip_example_returns:
  "\<exists>q'. copy_json_wip nd (test_engines st inc) donor_query receiver_query test_heap =
     Returns (Ok, q', test_heap)"
proof -
  let ?E = "test_engines st inc"
  obtain st4 q4 where s: "set_subarray nd ?E (subarray ?E donor_query)
      (receiver_at_switch ?E donor_query receiver_query) = Returns (st4, q4)"
    using wip_example_check [of nd st inc]
    by (cases "ok st") (simp_all add: set_subarray_unfold ok_def wip_example)
  have "copy_buffers ?E donor_query q4 test_heap = Returns (Ok, q4, test_heap)"
    by (simp add: copy_buffers_def wip_example)
  then show ?thesis
    using s by (simp add: copy_json_wip_numeric [OF wip_example(1) wip_example_numeric])
qed

text \<open>
  Claim C8 says that \<open>copy_json_wip\<close> leaves the receiver \<open>UNINITIALIZED\<close> whenever the donor's
  subarray passes the bounds validation.  With an engine that rejects the subarray, a
  donor that is \<open>COMPLETED\<close> and whose subarray \<open>[0, 9]\<close> passes the validation leaves the
  receiver \<open>COMPLETED\<close>, and the call returns OK.
\<close>

theorem copy_json_wip_engine_rejects_counterexample:
  "check_subarray_bounds True (test_engines (ReaderError ''no'') False)
     (receiver_at_switch (test_engines (ReaderError ''no'') False) donor_query receiver_query)
     (subarray (test_engines (ReaderError ''no'') False) donor_query) = Returns Ok \<and>
   (case copy_json_wip True (test_engines (ReaderError ''no'') False) donor_query receiver_query
           test_heap of
      Returns (st, q', h') \<Rightarrow> st = Ok \<and> q_status q' = COMPLETED \<and> q_status q' \<noteq> UNINITIALIZED
    | _ \<Rightarrow> False)"
proof -
  let ?E = "test_engines (ReaderError ''no'') False"
  let ?q3 = "receiver_at_switch ?E donor_query receiver_query"
  obtain q' where r: "copy_json_wip True ?E donor_query receiver_query test_heap =
      Returns (Ok, q', test_heap)"
    using wip_example_returns by blast
  obtain st4 q4 where s: "set_subarray True ?E (subarray ?E donor_query) ?q3 = Returns (st4, q4)"
    and q4: "q_status q4 = q_status ?q3"
    using wip_example_check [of True "ReaderError ''no''" False]
    by (simp add: set_subarray_unfold ok_def wip_example)
  from r s have "copy_buffers ?E donor_query q4 test_heap = Returns (Ok, q', test_heap)"
    by (simp add: copy_json_wip_numeric [OF wip_example(1) wip_example_numeric])
  from copy_buffers_props [OF this] q4 have "q_status q' = COMPLETED"
    by (simp add: receiver_at_switch_simps wip_example)
  then show ?thesis
    using r wip_example_check by simp
qed

theorem copy_json_wip_status_witness:
  "array_schema (test_engines Ok False)
     (receiver_at_switch (test_engines Ok False) donor_query receiver_query) = Some int32_schema \<and>
   dom_type (schema_domain int32_schema) \<in> numeric_types \<and>
   check_subarray_bounds True (test_engines Ok False)
     (receiver_at_switch (test_engines Ok False) donor_query receiver_query)
     (subarray (test_engines Ok False) donor_query) = Returns Ok \<and>
   ok (engine_set_subarray_status (test_engines Ok False) (subarray (test_engines Ok False) donor_query)
     (receiver_at_switch (test_engines Ok False) donor_query receiver_query)) \<and>
   q_status donor_query = COMPLETED \<and>
   (case copy_json_wip True (test_engines Ok False) donor_query receiver_query test_heap of
      Returns (st, q', h') \<Rightarrow>
        q_status q' = UNINITIALIZED \<and>
        events q' = [StatusAssigned COMPLETED, StatusAssigned UNINITIALIZED]
    | _ \<Rightarrow> False)"
proof -
  let ?E = "test_engines Ok False"
  obtain q' where r: "copy_json_wip True ?E donor_query receiver_query test_heap =
      Returns (Ok, q', test_heap)"
    using wip_example_returns by blast
  have e: "ok (engine_set_subarray_status ?E (subarray ?E donor_query)
      (receiver_at_switch ?E donor_query receiver_query))"
    by (simp add: wip_example ok_def)
  from copy_json_wip_status [OF wip_example(1) wip_example_numeric wip_example_check,
      of True Ok False test_heap] e r
  have "q_status q' = UNINITIALIZED \<and>
      events q' = events receiver_query @
        [StatusAssigned (q_status donor_query), StatusAssigned UNINITIALIZED]"
    by blast
  then show ?thesis
    using r e wip_example(1,3) wip_example_numeric wip_example_check
    by (simp add: wip_example(5))
qed

end
